theory Spec2Isabelle
  imports Main "HOL-Library.Sublist"
begin

section \<open>JavaScript values, strings and errors\<close>

text \<open>
  The session carried by a request context has the TypeScript type \<open>any\<close>. The source
  tests it in two different ways (\<open>!session\<close> and \<open>session !== undefined\<close>), so the
  model keeps enough of a JavaScript value to tell the two tests apart.
\<close>

datatype jsval =
    JUndefined
  | JNull
  | JBoolean bool
  | JNumber int
  | JString string
  | JObject "(string \<times> jsval) list"

text \<open>JavaScript truthiness: what \<open>if (v)\<close>, \<open>!v\<close> and \<open>v && w\<close> look at.\<close>

fun truthy :: "jsval \<Rightarrow> bool" where
  "truthy JUndefined = False"
| "truthy JNull = False"
| "truthy (JBoolean b) = b"
| "truthy (JNumber n) = (n \<noteq> 0)"
| "truthy (JString s) = (s \<noteq> [])"
| "truthy (JObject ps) = True"

text \<open>Truthiness of an optional string (\<open>undefined\<close> and the empty string are falsy).\<close>

fun truthy_string :: "string option \<Rightarrow> bool" where
  "truthy_string None = False"
| "truthy_string (Some s) = (s \<noteq> [])"

text \<open>\<open>String.prototype.includes\<close>: the search string occurs somewhere in the subject.\<close>

fun str_includes :: "string \<Rightarrow> string \<Rightarrow> bool" where
  "str_includes [] search = (search = [])"
| "str_includes (c # cs) search = (prefix search (c # cs) \<or> str_includes cs search)"

text \<open>
  A property read \<open>obj[key]\<close> on a plain object (an object literal, whose prototype is
  \<open>Object.prototype\<close>) finds the object's own property of that name and otherwise the member
  of \<open>Object.prototype\<close> of that name; it is \<open>undefined\<close> only when neither exists. The own
  properties of an object are a map; the names below are the members of
  \<open>Object.prototype\<close>.
\<close>

definition Object_prototype_members :: "string list" where
  "Object_prototype_members =
     [ ''constructor'', ''__defineGetter__'', ''__defineSetter__'', ''hasOwnProperty'',
       ''__lookupGetter__'', ''__lookupSetter__'', ''isPrototypeOf'',
       ''propertyIsEnumerable'', ''toString'', ''valueOf'', ''__proto__'',
       ''toLocaleString'' ]"

datatype 'a property =
    Own 'a
  | Inherited
  | Missing

definition get_property :: "(string \<rightharpoonup> 'a) \<Rightarrow> string \<Rightarrow> 'a property" where
  "get_property obj key =
     (case obj key of
        Some v \<Rightarrow> Own v
      | None \<Rightarrow> if key \<in> set Object_prototype_members then Inherited else Missing)"

text \<open>
  Everything the source can throw. The two \<open>Error\<close>s of \<open>validateConfig\<close> carry the
  data their message is built from:
  \<^item> \<open>ListNotDefined listKey\<close>: "A createAuth() invocation specifies the list
    "listKey" but no list with that key has been defined.";
  \<^item> \<open>IdentityFieldNotDefined listKey identityField\<close>: "A createAuth() invocation
    for the "listKey" list specifies identityField as its identityField but no field
    with that key exists on the list.".
  \<open>TypeError\<close> is what the runtime throws (\<open>url.parse(undefined)\<close>, \<open>new URL\<close> of a
  string that is no URL, a property read on \<open>undefined\<close>); \<open>Fault\<close> is an error thrown
  by a collaborator (the caller's own functions, the identity provider, the data layer).
\<close>

datatype error =
    ListNotDefined string
  | IdentityFieldNotDefined string string
  | TypeError
  | Fault string

section \<open>Data model\<close>

text \<open>The destructured argument of \<open>createAuth\<close>.\<close>

record auth_config =
  listKey :: string
  identityField :: string
  sessionData :: "string option"
  autoCreate :: bool
  userMap :: "(string \<times> string) list"
  accountMap :: "(string \<times> string) list"
  profileMap :: "(string \<times> string) list"
  keystonePath :: string

text \<open>\<open>keystonePath\<close> is the text that the template literal \<open>${keystonePath}\<close> renders.\<close>

record gql_names =
  authenticateItemWithPassword :: string
  ItemAuthenticationWithPasswordResult :: string
  ItemAuthenticationWithPasswordSuccess :: string
  ItemAuthenticationWithPasswordFailure :: string
  CreateInitialInput :: string
  createInitialItem :: string

definition gqlNames :: "auth_config \<Rightarrow> gql_names" where
  "gqlNames ac =
     \<lparr> authenticateItemWithPassword = ''authenticate'' @ listKey ac @ ''WithPassword'',
       ItemAuthenticationWithPasswordResult = listKey ac @ ''AuthenticationWithPasswordResult'',
       ItemAuthenticationWithPasswordSuccess = listKey ac @ ''AuthenticationWithPasswordSuccess'',
       ItemAuthenticationWithPasswordFailure = listKey ac @ ''AuthenticationWithPasswordFailure'',
       CreateInitialInput = ''CreateInitial'' @ listKey ac @ ''Input'',
       createInitialItem = ''createInitial'' @ listKey ac \<rparr>"

text \<open>
  The parts of a request the source reads: the request headers \<open>x-forwarded-host\<close>,
  \<open>host\<close> and \<open>referer\<close> (each may be missing), and the path of the request URL,
  \<open>url.parse(req.url).pathname\<close>, which the source asserts to be a string.
\<close>

record headers =
  x_forwarded_host :: "string option"
  host :: "string option"
  referer :: "string option"

record request =
  req_pathname :: string
  req_headers :: headers

text \<open>
  The request context: \<open>context.req\<close> is optional, \<open>context.session\<close> is any value, and
  \<open>context_sudo_count ctx k\<close> is the result of \<open>context.sudo().lists[k].count({})\<close>:
  \<open>None\<close> when the privileged context has no list \<open>k\<close>, otherwise the number the
  data layer counts or the error it throws.
\<close>

record keystone_context =
  context_req :: "request option"
  context_session :: jsval
  context_sudo_count :: "string \<rightharpoonup> (error + nat)"

text \<open>The argument of a page middleware, and its result when it is not \<open>undefined\<close>.\<close>

record page_args =
  args_context :: keystone_context
  isValidSession :: bool

datatype page_result = Redirect string

type_synonym page_middleware = "page_args \<Rightarrow> error + page_result option"

text \<open>A file of the Admin UI build (\<open>AdminFileToWrite\<close>).\<close>

datatype admin_file =
    WriteFile string string
  | CopyFile string string

text \<open>
  \<open>keystoneConfig.ui\<close>: the five properties the source reads or overrides, each optional,
  and \<open>ui_rest\<close> for every other property, which the spread \<open>...keystoneConfig.ui\<close>
  carries over.
\<close>

record 'u ui_config =
  ui_publicPages :: "string list option"
  ui_getAdditionalFiles :: "(unit \<Rightarrow> admin_file list) list option"
  ui_pageMiddleware :: "page_middleware option"
  ui_enableSessionItem :: "bool option"
  ui_isAccessAllowed :: "(keystone_context \<Rightarrow> error + bool) option"
  ui_rest :: 'u

text \<open>
  A session strategy: \<open>get\<close>, called with \<open>{ req }\<close>, and \<open>strategy_rest\<close> for every other
  capability (\<open>start\<close>, \<open>end\<close>, ...), which \<open>const { get, ...sessionStrategy }\<close> splits off.
\<close>

record 'r session_strategy =
  get :: "request option \<Rightarrow> error + jsval"
  strategy_rest :: 'r

record 'f list_config =
  list_fields :: "string \<rightharpoonup> 'f"

text \<open>
  \<open>KeystoneConfig\<close>: \<open>lists\<close>, \<open>ui\<close>, \<open>session\<close>, \<open>extendGraphqlSchema\<close>, and \<open>config_rest\<close>
  for every other property, which the spread \<open>...keystoneConfig\<close> carries over.
\<close>

record ('schema, 'f, 'r, 'u, 'c) keystone_config =
  config_lists :: "string \<rightharpoonup> 'f list_config"
  config_ui :: "'u ui_config option"
  config_session :: "'r session_strategy option"
  config_extendGraphqlSchema :: "('schema \<Rightarrow> 'schema) option"
  config_rest :: 'c

text \<open>The argument object of \<open>authTemplate\<close>.\<close>

record auth_template_args =
  template_gqlNames :: gql_names
  template_identityField :: string
  template_sessionData :: "string option"
  template_listKey :: string
  template_autoCreate :: bool
  template_userMap :: "(string \<times> string) list"
  template_accountMap :: "(string \<times> string) list"
  template_profileMap :: "(string \<times> string) list"

text \<open>The result of \<open>new URL(s)\<close>, as far as the source reads it.\<close>

record URL =
  URL_pathname :: string
  URL_host :: string

text \<open>
  The collaborators that are imported from elsewhere: \<open>getSession\<close> of the identity
  provider, \<open>getSchemaExtension\<close> (called with identityField, listKey and gqlNames), the
  two file templates, and the \<open>URL\<close> constructor (\<open>None\<close> when it throws).
\<close>

record 'schema collaborators =
  getSession :: "request option \<Rightarrow> error + jsval"
  getSchemaExtension :: "string \<Rightarrow> string \<Rightarrow> gql_names \<Rightarrow> 'schema \<Rightarrow> 'schema"
  authTemplate :: "auth_template_args \<Rightarrow> string"
  nextConfigTemplate :: "string \<Rightarrow> string"
  URL_new :: "string \<Rightarrow> URL option"

section \<open>The functions of createAuth\<close>

subsection \<open>pageMiddleware\<close>

definition pageMiddleware :: "auth_config \<Rightarrow> page_middleware" where
  "pageMiddleware ac args =
     (case context_req (args_context args) of
        None \<Rightarrow> Inl TypeError
      | Some req \<Rightarrow>
          (let pathname = req_pathname req in
           if isValidSession args then
             (if pathname = keystonePath ac @ ''/api/auth/signin''
              then Inr (Some (Redirect (keystonePath ac)))
              else Inr None)
           else if \<not> truthy (context_session (args_context args))
                   \<and> \<not> str_includes pathname (keystonePath ac @ ''/api/auth/'')
           then Inr (Some (Redirect (keystonePath ac @ ''/api/auth/signin'')))
           else Inr None))"

subsection \<open>getAdditionalFiles\<close>

definition getAdditionalFiles :: "'schema collaborators \<Rightarrow> auth_config \<Rightarrow> unit \<Rightarrow> admin_file list" where
  "getAdditionalFiles env ac u =
     [ WriteFile ''pages/api/auth/[...nextauth].js''
         (authTemplate env
            \<lparr> template_gqlNames = gqlNames ac,
              template_identityField = identityField ac,
              template_sessionData = sessionData ac,
              template_listKey = listKey ac,
              template_autoCreate = autoCreate ac,
              template_userMap = userMap ac,
              template_accountMap = accountMap ac,
              template_profileMap = profileMap ac \<rparr>),
       WriteFile ''next.config.js'' (nextConfigTemplate env (keystonePath ac)) ]"

subsection \<open>publicPages\<close>

definition publicPages :: "auth_config \<Rightarrow> string list" where
  "publicPages ac =
     [ keystonePath ac @ ''/api/auth/csrf'',
       keystonePath ac @ ''/api/auth/signin'',
       keystonePath ac @ ''/api/auth/signin/auth0'',
       keystonePath ac @ ''/api/auth/callack'',
       keystonePath ac @ ''/api/auth/callback/auth0'',
       keystonePath ac @ ''/api/auth/session'',
       keystonePath ac @ ''/api/auth/providers'',
       keystonePath ac @ ''/api/auth/signout'' ]"

subsection \<open>extendGraphqlSchema\<close>

definition extendGraphqlSchema :: "'schema collaborators \<Rightarrow> auth_config \<Rightarrow> 'schema \<Rightarrow> 'schema" where
  "extendGraphqlSchema env ac =
     getSchemaExtension env (identityField ac) (listKey ac) (gqlNames ac)"

subsection \<open>validateConfig\<close>

text \<open>
  \<open>keystoneConfig.lists[listKey]\<close> and \<open>listConfig.fields[identityField]\<close> are property reads
  on the plain objects \<open>lists\<close> and \<open>fields\<close>. When \<open>listKey\<close> names no list but a member of
  \<open>Object.prototype\<close>, \<open>listConfig\<close> is that member, its \<open>fields\<close> is undefined, and the read
  of \<open>fields[identityField]\<close> throws a TypeError. When \<open>identityField\<close> names no field but a
  member of \<open>Object.prototype\<close>, \<open>identityFieldConfig\<close> is that member and not undefined.
\<close>

definition validateConfig ::
  "auth_config \<Rightarrow> ('schema, 'f, 'r, 'u, 'c) keystone_config \<Rightarrow> error + unit" where
  "validateConfig ac keystoneConfig =
     (case get_property (config_lists keystoneConfig) (listKey ac) of
        Missing \<Rightarrow> Inl (ListNotDefined (listKey ac))
      | Inherited \<Rightarrow> Inl TypeError
      | Own listConfig \<Rightarrow>
          (case get_property (list_fields listConfig) (identityField ac) of
             Missing \<Rightarrow> Inl (IdentityFieldNotDefined (listKey ac) (identityField ac))
           | Inherited \<Rightarrow> Inr ()
           | Own identityFieldConfig \<Rightarrow> Inr ()))"

subsection \<open>withItemData\<close>

definition withItemData_get :: "'schema collaborators \<Rightarrow> request option \<Rightarrow> error + jsval" where
  "withItemData_get env req =
     (case req of
        None \<Rightarrow> Inl TypeError
      | Some r \<Rightarrow>
          (let pathname = req_pathname r in
           if str_includes pathname ''/api/auth'' then Inr JUndefined
           else (case getSession env req of
                   Inl e \<Rightarrow> Inl e
                 | Inr nextSession \<Rightarrow>
                     if truthy nextSession then Inr nextSession else Inr JUndefined)))"

definition withItemData ::
  "'schema collaborators \<Rightarrow> 'r session_strategy \<Rightarrow> 'r session_strategy" where
  "withItemData env sessionStrategy0 =
     \<lparr> get = withItemData_get env, strategy_rest = strategy_rest sessionStrategy0 \<rparr>"

subsection \<open>withAuth\<close>

text \<open>The \<open>pageMiddleware\<close> that \<open>withAuth\<close> installs: \<open>a ?? b\<close> is \<open>b\<close> when \<open>a\<close> is undefined.\<close>

definition withAuth_pageMiddleware ::
  "auth_config \<Rightarrow> ('schema, 'f, 'r, 'u, 'c) keystone_config \<Rightarrow> page_middleware" where
  "withAuth_pageMiddleware ac keystoneConfig args =
     (case pageMiddleware ac args of
        Inl e \<Rightarrow> Inl e
      | Inr (Some r) \<Rightarrow> Inr (Some r)
      | Inr None \<Rightarrow>
          (case config_ui keystoneConfig of
             None \<Rightarrow> Inr None
           | Some u \<Rightarrow>
               (case ui_pageMiddleware u of
                  None \<Rightarrow> Inr None
                | Some callerMiddleware \<Rightarrow> callerMiddleware args)))"

text \<open>\<open>headers['x-forwarded-host'] || headers.host\<close>.\<close>

definition request_host :: "headers \<Rightarrow> string option" where
  "request_host hs =
     (if truthy_string (x_forwarded_host hs) then x_forwarded_host hs else host hs)"

text \<open>
  \<open>accessingInitPage\<close>: the three conjuncts of the source, evaluated left to right, so
  that the count is queried only when the two before it hold.
\<close>

definition accessingInitPage ::
  "auth_config \<Rightarrow> keystone_context \<Rightarrow> string option \<Rightarrow> URL option \<Rightarrow> error + bool" where
  "accessingInitPage ac ctx hst url =
     (case url of
        None \<Rightarrow> Inr False
      | Some u \<Rightarrow>
          if URL_pathname u = ''/init'' \<and> hst = Some (URL_host u) then
            (case context_sudo_count ctx (listKey ac) of
               None \<Rightarrow> Inl TypeError
             | Some (Inl e) \<Rightarrow> Inl e
             | Some (Inr n) \<Rightarrow> Inr (n = 0))
          else Inr False)"

text \<open>\<open>headers?.referer ? new URL(headers.referer) : undefined\<close>.\<close>

definition thisUrl :: "'schema collaborators \<Rightarrow> headers option \<Rightarrow> error + URL option" where
  "thisUrl env hdrs =
     (case hdrs of
        None \<Rightarrow> Inr None
      | Some hs \<Rightarrow>
          (case referer hs of
             None \<Rightarrow> Inr None
           | Some r \<Rightarrow>
               if r = [] then Inr None
               else (case URL_new env r of
                       None \<Rightarrow> Inl TypeError
                     | Some u \<Rightarrow> Inr (Some u))))"

definition withAuth_isAccessAllowed ::
  "'schema collaborators \<Rightarrow> auth_config \<Rightarrow> ('schema, 'f, 'r, 'u, 'c) keystone_config
     \<Rightarrow> keystone_context \<Rightarrow> error + bool" where
  "withAuth_isAccessAllowed env ac keystoneConfig ctx =
     (let hdrs = map_option req_headers (context_req ctx);
          hst = (case hdrs of None \<Rightarrow> None | Some hs \<Rightarrow> request_host hs)
      in case thisUrl env hdrs of
           Inl e \<Rightarrow> Inl e
         | Inr url \<Rightarrow>
             (case accessingInitPage ac ctx hst url of
                Inl e \<Rightarrow> Inl e
              | Inr True \<Rightarrow> Inr True
              | Inr False \<Rightarrow>
                  (case Option.bind (config_ui keystoneConfig) ui_isAccessAllowed of
                     Some callerAllowed \<Rightarrow> callerAllowed ctx
                   | None \<Rightarrow> Inr (context_session ctx \<noteq> JUndefined))))"

definition withAuth ::
  "'schema collaborators \<Rightarrow> auth_config \<Rightarrow> ('schema, 'f, 'r, 'u, 'c) keystone_config
     \<Rightarrow> error + ('schema, 'f, 'r, 'u, 'c) keystone_config" where
  "withAuth env ac keystoneConfig =
     (case validateConfig ac keystoneConfig of
        Inl e \<Rightarrow> Inl e
      | Inr _ \<Rightarrow>
          (let ui =
                 (case config_ui keystoneConfig of
                    None \<Rightarrow> None
                  | Some u \<Rightarrow>
                      Some (u\<lparr> ui_publicPages :=
                                  Some ((case ui_publicPages u of None \<Rightarrow> [] | Some ps \<Rightarrow> ps)
                                        @ publicPages ac),
                                ui_getAdditionalFiles :=
                                  Some ((case ui_getAdditionalFiles u of None \<Rightarrow> [] | Some fs \<Rightarrow> fs)
                                        @ [getAdditionalFiles env ac]),
                                ui_pageMiddleware :=
                                  Some (withAuth_pageMiddleware ac keystoneConfig),
                                ui_enableSessionItem := Some True,
                                ui_isAccessAllowed :=
                                  Some (withAuth_isAccessAllowed env ac keystoneConfig) \<rparr>));
               session =
                 (case config_session keystoneConfig of
                    None \<Rightarrow> None
                  | Some s \<Rightarrow>
                      if truthy_string (sessionData ac) then Some (withItemData env s)
                      else Some s);
               existingExtendGraphQLSchema = config_extendGraphqlSchema keystoneConfig
           in Inr (keystoneConfig
                     \<lparr> config_ui := ui,
                       config_session := session,
                       config_lists := config_lists keystoneConfig,
                       config_extendGraphqlSchema :=
                         Some (case existingExtendGraphQLSchema of
                                 Some existing \<Rightarrow>
                                   (\<lambda>schema. existing (extendGraphqlSchema env ac schema))
                               | None \<Rightarrow> extendGraphqlSchema env ac) \<rparr>)))"

section \<open>withAuth over a store of objects\<close>

text \<open>
  The value-level functions above cannot say whether \<open>withAuth\<close> writes to the objects it
  is given, so \<open>withAuth\<close> is modelled a second time over a store of objects. The store is
  the list of all objects allocated so far and an address is an index into it. Every
  object literal and array literal of the source allocates a new object; a property read
  looks an address up; the source has no assignment to a property, so nothing here
  overwrites a cell. Strings and functions are values of the store, with the functions
  that \<open>withAuth\<close> creates being those of the value-level model; they close over the
  caller's configuration as it is when \<open>withAuth\<close> runs.
\<close>

type_synonym addr = nat

text \<open>
  The objects of a store, with the shapes that the TypeScript types give them: the
  configuration object (its \<open>lists\<close>, \<open>ui\<close> and \<open>session\<close> are references), the \<open>ui\<close> object (its
  two arrays are references), the \<open>lists\<close> object, the two kinds of array, a session
  strategy, and the rest object that \<open>const { get, ...sessionStrategy }\<close> creates.
\<close>

record ('schema, 'c) config_object =
  object_lists :: addr
  object_ui :: "addr option"
  object_session :: "addr option"
  object_extendGraphqlSchema :: "('schema \<Rightarrow> 'schema) option"
  object_rest :: 'c

record 'u ui_object =
  object_publicPages :: "addr option"
  object_getAdditionalFiles :: "addr option"
  object_pageMiddleware :: "page_middleware option"
  object_enableSessionItem :: "bool option"
  object_isAccessAllowed :: "(keystone_context \<Rightarrow> error + bool) option"
  object_ui_rest :: 'u

datatype ('schema, 'f, 'r, 'u, 'c) object =
    ConfigObject "('schema, 'c) config_object"
  | UiObject "'u ui_object"
  | ListsObject "string \<rightharpoonup> 'f list_config"
  | StringArray "string list"
  | FunctionArray "(unit \<Rightarrow> admin_file list) list"
  | StrategyObject "'r session_strategy"
  | RestObject 'r

type_synonym ('schema, 'f, 'r, 'u, 'c) store = "('schema, 'f, 'r, 'u, 'c) object list"

text \<open>
  Reading a reference and allocating an object. A read of an address that holds no
  object, or an object of another shape than the types promise, has no result; the
  functions below then fail with \<open>TypeError\<close>.
\<close>

definition store_lookup ::
  "('schema, 'f, 'r, 'u, 'c) store \<Rightarrow> addr \<Rightarrow> ('schema, 'f, 'r, 'u, 'c) object option" where
  "store_lookup s a = (if a < length s then Some (s ! a) else None)"

definition store_alloc ::
  "('schema, 'f, 'r, 'u, 'c) store \<Rightarrow> ('schema, 'f, 'r, 'u, 'c) object
     \<Rightarrow> ('schema, 'f, 'r, 'u, 'c) store \<times> addr" where
  "store_alloc s obj = (s @ [obj], length s)"

definition read_strings :: "('schema, 'f, 'r, 'u, 'c) store \<Rightarrow> addr \<Rightarrow> string list option" where
  "read_strings s a = (case store_lookup s a of Some (StringArray xs) \<Rightarrow> Some xs | _ \<Rightarrow> None)"

definition read_functions ::
  "('schema, 'f, 'r, 'u, 'c) store \<Rightarrow> addr \<Rightarrow> (unit \<Rightarrow> admin_file list) list option" where
  "read_functions s a = (case store_lookup s a of Some (FunctionArray fs) \<Rightarrow> Some fs | _ \<Rightarrow> None)"

definition read_lists ::
  "('schema, 'f, 'r, 'u, 'c) store \<Rightarrow> addr \<Rightarrow> (string \<rightharpoonup> 'f list_config) option" where
  "read_lists s a = (case store_lookup s a of Some (ListsObject ls) \<Rightarrow> Some ls | _ \<Rightarrow> None)"

definition read_strategy ::
  "('schema, 'f, 'r, 'u, 'c) store \<Rightarrow> addr \<Rightarrow> 'r session_strategy option" where
  "read_strategy s a = (case store_lookup s a of Some (StrategyObject st) \<Rightarrow> Some st | _ \<Rightarrow> None)"

fun read_optional :: "(addr \<Rightarrow> 'a option) \<Rightarrow> addr option \<Rightarrow> 'a option option" where
  "read_optional rd None = Some None"
| "read_optional rd (Some a) = map_option Some (rd a)"

text \<open>
  The value of the \<open>ui\<close> object and of the configuration object at an address: the
  records of the value-level model, read through the references.
\<close>

definition read_ui :: "('schema, 'f, 'r, 'u, 'c) store \<Rightarrow> addr \<Rightarrow> 'u ui_config option" where
  "read_ui s a =
     (case store_lookup s a of
        Some (UiObject u) \<Rightarrow>
          (case read_optional (read_strings s) (object_publicPages u) of
             None \<Rightarrow> None
           | Some pages \<Rightarrow>
               (case read_optional (read_functions s) (object_getAdditionalFiles u) of
                  None \<Rightarrow> None
                | Some files \<Rightarrow>
                    Some \<lparr> ui_publicPages = pages,
                           ui_getAdditionalFiles = files,
                           ui_pageMiddleware = object_pageMiddleware u,
                           ui_enableSessionItem = object_enableSessionItem u,
                           ui_isAccessAllowed = object_isAccessAllowed u,
                           ui_rest = object_ui_rest u \<rparr>))
      | _ \<Rightarrow> None)"

definition read_config ::
  "('schema, 'f, 'r, 'u, 'c) store \<Rightarrow> addr \<Rightarrow> ('schema, 'f, 'r, 'u, 'c) keystone_config option" where
  "read_config s a =
     (case store_lookup s a of
        Some (ConfigObject c) \<Rightarrow>
          (case read_lists s (object_lists c) of
             None \<Rightarrow> None
           | Some ls \<Rightarrow>
               (case read_optional (read_ui s) (object_ui c) of
                  None \<Rightarrow> None
                | Some u \<Rightarrow>
                    (case read_optional (read_strategy s) (object_session c) of
                       None \<Rightarrow> None
                     | Some st \<Rightarrow>
                         Some \<lparr> config_lists = ls,
                                config_ui = u,
                                config_session = st,
                                config_extendGraphqlSchema = object_extendGraphqlSchema c,
                                config_rest = object_rest c \<rparr>)))
      | _ \<Rightarrow> None)"

text \<open>
  Lines 204 to 236 of \<open>withAuth\<close>: the two new arrays and the new \<open>ui\<close> object.
\<close>

definition withAuth_ui_store ::
  "'schema collaborators \<Rightarrow> auth_config \<Rightarrow> ('schema, 'f, 'r, 'u, 'c) keystone_config
     \<Rightarrow> ('schema, 'f, 'r, 'u, 'c) store \<Rightarrow> addr
     \<Rightarrow> (('schema, 'f, 'r, 'u, 'c) store \<times> addr) option" where
  "withAuth_ui_store env ac cfg s a =
     (case store_lookup s a of
        Some (UiObject u) \<Rightarrow>
          (case read_optional (read_strings s) (object_publicPages u) of
             None \<Rightarrow> None
           | Some pages \<Rightarrow>
               (case read_optional (read_functions s) (object_getAdditionalFiles u) of
                  None \<Rightarrow> None
                | Some files \<Rightarrow>
                    (let (s1, publicPages1) =
                           store_alloc s
                             (StringArray ((case pages of None \<Rightarrow> [] | Some ps \<Rightarrow> ps)
                                           @ publicPages ac));
                         (s2, getAdditionalFiles1) =
                           store_alloc s1
                             (FunctionArray ((case files of None \<Rightarrow> [] | Some fs \<Rightarrow> fs)
                                             @ [getAdditionalFiles env ac]))
                     in Some (store_alloc s2
                          (UiObject (u\<lparr> object_publicPages := Some publicPages1,
                                         object_getAdditionalFiles := Some getAdditionalFiles1,
                                         object_pageMiddleware :=
                                           Some (withAuth_pageMiddleware ac cfg),
                                         object_enableSessionItem := Some True,
                                         object_isAccessAllowed :=
                                           Some (withAuth_isAccessAllowed env ac cfg) \<rparr>))))))
      | _ \<Rightarrow> None)"

text \<open>
  \<open>withItemData\<close>: the rest object of the destructuring and the returned strategy.
\<close>

definition withItemData_store ::
  "'schema collaborators \<Rightarrow> ('schema, 'f, 'r, 'u, 'c) store \<Rightarrow> addr
     \<Rightarrow> (('schema, 'f, 'r, 'u, 'c) store \<times> addr) option" where
  "withItemData_store env s a =
     (case read_strategy s a of
        None \<Rightarrow> None
      | Some sessionStrategy0 \<Rightarrow>
          (let (s1, sessionStrategy) = store_alloc s (RestObject (strategy_rest sessionStrategy0))
           in Some (store_alloc s1 (StrategyObject (withItemData env sessionStrategy0)))))"

text \<open>
  \<open>withAuth\<close>: validation, the \<open>ui\<close> object when the caller has one, the session strategy
  when it is wrapped (the caller's own reference otherwise), the copy of \<open>lists\<close>, and the
  returned configuration object. The result is the new store and the address of the
  returned object.
\<close>

definition withAuth_store ::
  "'schema collaborators \<Rightarrow> auth_config \<Rightarrow> ('schema, 'f, 'r, 'u, 'c) store \<Rightarrow> addr
     \<Rightarrow> error + (('schema, 'f, 'r, 'u, 'c) store \<times> addr)" where
  "withAuth_store env ac s keystoneConfig =
     (case read_config s keystoneConfig of
        None \<Rightarrow> Inl TypeError
      | Some cfg \<Rightarrow>
          (case validateConfig ac cfg of
             Inl e \<Rightarrow> Inl e
           | Inr _ \<Rightarrow>
               (case store_lookup s keystoneConfig of
                  Some (ConfigObject c) \<Rightarrow>
                    (case (case object_ui c of
                             None \<Rightarrow> Some (s, None)
                           | Some a \<Rightarrow>
                               map_option (\<lambda>(s1, ui). (s1, Some ui))
                                 (withAuth_ui_store env ac cfg s a)) of
                       None \<Rightarrow> Inl TypeError
                     | Some (s1, ui) \<Rightarrow>
                         (case (case object_session c of
                                  None \<Rightarrow> Some (s1, None)
                                | Some a \<Rightarrow>
                                    if truthy_string (sessionData ac)
                                    then map_option (\<lambda>(s2, session). (s2, Some session))
                                           (withItemData_store env s1 a)
                                    else Some (s1, Some a)) of
                            None \<Rightarrow> Inl TypeError
                          | Some (s2, session) \<Rightarrow>
                              (case read_lists s2 (object_lists c) of
                                 None \<Rightarrow> Inl TypeError
                               | Some ls \<Rightarrow>
                                   (let (s3, lists1) = store_alloc s2 (ListsObject ls)
                                    in Inr (store_alloc s3
                                         (ConfigObject
                                            (c\<lparr> object_ui := ui,
                                                 object_session := session,
                                                 object_lists := lists1,
                                                 object_extendGraphqlSchema :=
                                                   Some (case object_extendGraphqlSchema c of
                                                           Some existing \<Rightarrow>
                                                             (\<lambda>schema. existing
                                                                (extendGraphqlSchema env ac schema))
                                                         | None \<Rightarrow> extendGraphqlSchema env ac)
                                               \<rparr>)))))))
                | _ \<Rightarrow> Inl TypeError)))"

section \<open>The Access Decision Engine as the specification words it\<close>

text \<open>
  The four ordered rules of the specification's decision function, over the two inputs it
  names (the request path and the validity of the session), with "under the auth-API
  path prefix" read as "starts with \<open>${keystonePath}/api/auth/\<close>". It is compared with
  \<open>pageMiddleware\<close> below.
\<close>

definition decide_spec :: "auth_config \<Rightarrow> string \<Rightarrow> bool \<Rightarrow> page_result option" where
  "decide_spec ac path valid =
     (if valid \<and> path = keystonePath ac @ ''/api/auth/signin''
      then Some (Redirect (keystonePath ac))
      else if valid then None
      else if \<not> prefix (keystonePath ac @ ''/api/auth/'') path
      then Some (Redirect (keystonePath ac @ ''/api/auth/signin''))
      else None)"

section \<open>Concrete inputs\<close>

definition example_auth :: auth_config where
  "example_auth =
     \<lparr> listKey = ''User'', identityField = ''email'', sessionData = Some ''id name'',
       autoCreate = False, userMap = [], accountMap = [], profileMap = [],
       keystonePath = ''/admin'' \<rparr>"

definition example_headers :: "string option \<Rightarrow> headers" where
  "example_headers ref =
     \<lparr> x_forwarded_host = None, host = Some ''localhost:3000'', referer = ref \<rparr>"

definition example_context :: "string \<Rightarrow> string option \<Rightarrow> jsval \<Rightarrow> nat \<Rightarrow> keystone_context" where
  "example_context path ref s n =
     \<lparr> context_req = Some \<lparr> req_pathname = path, req_headers = example_headers ref \<rparr>,
       context_session = s,
       context_sudo_count = (\<lambda>k. if k = ''User'' then Some (Inr n) else None) \<rparr>"

definition example_args :: "string \<Rightarrow> jsval \<Rightarrow> bool \<Rightarrow> page_args" where
  "example_args path s valid =
     \<lparr> args_context = example_context path None s 1, isValidSession = valid \<rparr>"

definition example_URL_new :: "string \<Rightarrow> URL option" where
  "example_URL_new s =
     (if s = ''http://localhost:3000/init''
      then Some \<lparr> URL_pathname = ''/init'', URL_host = ''localhost:3000'' \<rparr>
      else if s = ''http://localhost:3000/signin''
      then Some \<lparr> URL_pathname = ''/signin'', URL_host = ''localhost:3000'' \<rparr>
      else if s = ''http://evil.example/init''
      then Some \<lparr> URL_pathname = ''/init'', URL_host = ''evil.example'' \<rparr>
      else None)"

definition example_getSession :: "request option \<Rightarrow> error + jsval" where
  "example_getSession req =
     (case req of
        None \<Rightarrow> Inr JNull
      | Some r \<Rightarrow>
          if req_pathname r = ''/admin/anonymous'' then Inr JNull
          else Inr (JObject [(''user'', JString ''ada'')]))"

definition example_env :: "string list collaborators" where
  "example_env =
     \<lparr> getSession = example_getSession,
       getSchemaExtension = (\<lambda>field key names schema. schema @ [authenticateItemWithPassword names]),
       authTemplate = (\<lambda>args. ''auth''),
       nextConfigTemplate = (\<lambda>path. ''next''),
       URL_new = example_URL_new \<rparr>"

definition example_caller_extension :: "string list \<Rightarrow> string list" where
  "example_caller_extension schema = schema @ [''X'']"

definition example_caller_middleware :: page_middleware where
  "example_caller_middleware args =
     (if isValidSession args then Inr (Some (Redirect ''/welcome'')) else Inl (Fault ''caller''))"

definition example_strategy :: "unit session_strategy" where
  "example_strategy = \<lparr> get = (\<lambda>req. Inr (JString ''token'')), strategy_rest = () \<rparr>"

definition example_ui :: "unit ui_config" where
  "example_ui =
     \<lparr> ui_publicPages = Some [''/welcome''],
       ui_getAdditionalFiles = None,
       ui_pageMiddleware = Some example_caller_middleware,
       ui_enableSessionItem = None,
       ui_isAccessAllowed = None,
       ui_rest = () \<rparr>"

definition example_config :: "(string list, unit, unit, unit, unit) keystone_config" where
  "example_config =
     \<lparr> config_lists = [''User'' \<mapsto> \<lparr> list_fields = [''email'' \<mapsto> ()] \<rparr>],
       config_ui = Some example_ui,
       config_session = Some example_strategy,
       config_extendGraphqlSchema = Some example_caller_extension,
       config_rest = () \<rparr>"

definition example_store :: "(string list, unit, unit, unit, unit) store" where
  "example_store =
     [ ListsObject [''User'' \<mapsto> \<lparr> list_fields = [''email'' \<mapsto> ()] \<rparr>],
       StringArray [''/welcome''],
       UiObject \<lparr> object_publicPages = Some 1,
                  object_getAdditionalFiles = None,
                  object_pageMiddleware = Some example_caller_middleware,
                  object_enableSessionItem = None,
                  object_isAccessAllowed = None,
                  object_ui_rest = () \<rparr>,
       StrategyObject example_strategy,
       ConfigObject \<lparr> object_lists = 0,
                      object_ui = Some 2,
                      object_session = Some 3,
                      object_extendGraphqlSchema = Some example_caller_extension,
                      object_rest = () \<rparr> ]"

section \<open>Strings\<close>

lemma str_includes_iff: "str_includes s t \<longleftrightarrow> (\<exists>ps ss. s = ps @ t @ ss)"
proof (induction s)
  case Nil
  show ?case by auto
next
  case (Cons c cs)
  show ?case
  proof
    assume "str_includes (c # cs) t"
    then consider "prefix t (c # cs)" | "str_includes cs t" by auto
    then show "\<exists>ps ss. c # cs = ps @ t @ ss"
    proof cases
      case 1
      then obtain ss where "c # cs = t @ ss" by (auto simp: prefix_def)
      then have "c # cs = [] @ t @ ss" by simp
      then show ?thesis by blast
    next
      case 2
      with Cons.IH obtain ps ss where "cs = ps @ t @ ss" by blast
      then have "c # cs = (c # ps) @ t @ ss" by simp
      then show ?thesis by blast
    qed
  next
    assume "\<exists>ps ss. c # cs = ps @ t @ ss"
    then obtain ps ss where eq: "c # cs = ps @ t @ ss" by blast
    show "str_includes (c # cs) t"
    proof (cases ps)
      case Nil
      with eq have "prefix t (c # cs)" by (simp add: prefix_def)
      then show ?thesis by simp
    next
      case (Cons p ps')
      with eq have "cs = ps' @ t @ ss" by simp
      with Cons.IH have "str_includes cs t" by blast
      then show ?thesis by simp
    qed
  qed
qed

lemma str_includes_prefix: "prefix t s \<Longrightarrow> str_includes s t"
  by (cases s) auto

section \<open>The page-level access decision\<close>

text \<open>
  C1 (as the code has it). For a request context that carries a request:
  with a valid session and the path equal to the sign-in page path, \<open>pageMiddleware\<close>
  redirects to \<open>keystonePath\<close>; with a valid session and any other path it continues
  (returns undefined); with \<open>isValidSession\<close> false, a falsy \<open>context.session\<close> and a path in
  which \<open>${keystonePath}/api/auth/\<close> occurs nowhere, it redirects to the sign-in page; and
  with \<open>isValidSession\<close> false and either a truthy \<open>context.session\<close> or a path in which
  \<open>${keystonePath}/api/auth/\<close> occurs somewhere, it continues; in particular it continues
  on every path that starts with \<open>${keystonePath}/api/auth/\<close>.
\<close>

theorem pageMiddleware_rules:
  assumes "context_req (args_context args) = Some req"
  shows "(isValidSession args \<and> req_pathname req = keystonePath ac @ ''/api/auth/signin''
            \<longrightarrow> pageMiddleware ac args = Inr (Some (Redirect (keystonePath ac))))
       \<and> (isValidSession args \<and> req_pathname req \<noteq> keystonePath ac @ ''/api/auth/signin''
            \<longrightarrow> pageMiddleware ac args = Inr None)
       \<and> (\<not> isValidSession args \<and> \<not> truthy (context_session (args_context args))
            \<and> \<not> (\<exists>ps ss. req_pathname req = ps @ (keystonePath ac @ ''/api/auth/'') @ ss)
            \<longrightarrow> pageMiddleware ac args
                  = Inr (Some (Redirect (keystonePath ac @ ''/api/auth/signin''))))
       \<and> (\<not> isValidSession args \<and> (truthy (context_session (args_context args))
              \<or> (\<exists>ps ss. req_pathname req = ps @ (keystonePath ac @ ''/api/auth/'') @ ss))
            \<longrightarrow> pageMiddleware ac args = Inr None)
       \<and> (\<not> isValidSession args \<and> prefix (keystonePath ac @ ''/api/auth/'') (req_pathname req)
            \<longrightarrow> pageMiddleware ac args = Inr None)"
proof -
  have "str_includes (req_pathname req) (keystonePath ac @ ''/api/auth/'')"
    if "prefix (keystonePath ac @ ''/api/auth/'') (req_pathname req)"
    using that by (rule str_includes_prefix)
  then have "\<not> isValidSession args \<and> prefix (keystonePath ac @ ''/api/auth/'') (req_pathname req)
            \<longrightarrow> pageMiddleware ac args = Inr None"
    using assms by (auto simp add: pageMiddleware_def Let_def)
  moreover have
    "(isValidSession args \<and> req_pathname req = keystonePath ac @ ''/api/auth/signin''
            \<longrightarrow> pageMiddleware ac args = Inr (Some (Redirect (keystonePath ac))))
       \<and> (isValidSession args \<and> req_pathname req \<noteq> keystonePath ac @ ''/api/auth/signin''
            \<longrightarrow> pageMiddleware ac args = Inr None)
       \<and> (\<not> isValidSession args \<and> \<not> truthy (context_session (args_context args))
            \<and> \<not> (\<exists>ps ss. req_pathname req = ps @ (keystonePath ac @ ''/api/auth/'') @ ss)
            \<longrightarrow> pageMiddleware ac args
                  = Inr (Some (Redirect (keystonePath ac @ ''/api/auth/signin''))))
       \<and> (\<not> isValidSession args \<and> (truthy (context_session (args_context args))
              \<or> (\<exists>ps ss. req_pathname req = ps @ (keystonePath ac @ ''/api/auth/'') @ ss))
            \<longrightarrow> pageMiddleware ac args = Inr None)"
    using assms by (simp add: pageMiddleware_def str_includes_iff Let_def)
  ultimately show ?thesis by blast
qed

theorem pageMiddleware_rules_witness:
  "pageMiddleware example_auth (example_args ''/admin/api/auth/signin'' (JObject []) True)
     = Inr (Some (Redirect ''/admin''))
   \<and> pageMiddleware example_auth (example_args ''/admin/posts'' (JObject []) True) = Inr None
   \<and> pageMiddleware example_auth (example_args ''/admin/posts'' JUndefined False)
       = Inr (Some (Redirect ''/admin/api/auth/signin''))
   \<and> pageMiddleware example_auth (example_args ''/admin/posts'' (JObject []) False) = Inr None
   \<and> pageMiddleware example_auth (example_args ''/admin/api/auth/csrf'' JUndefined False)
       = Inr None"
proof -
  have nosub: "\<not> (\<exists>ps ss. ''/admin/posts'' = ps @ (''/admin'' @ ''/api/auth/'') @ ss)"
    unfolding str_includes_iff [symmetric] by simp
  have r: "\<And>path s v. context_req (args_context (example_args path s v))
             = Some \<lparr> req_pathname = path, req_headers = example_headers None \<rparr>"
    by (simp add: example_args_def example_context_def)
  show ?thesis
    using pageMiddleware_rules [OF r, of "''/admin/api/auth/signin''" "JObject []" True example_auth]
          pageMiddleware_rules [OF r, of "''/admin/posts''" "JObject []" True example_auth]
          pageMiddleware_rules [OF r, of "''/admin/posts''" JUndefined False example_auth]
          pageMiddleware_rules [OF r, of "''/admin/posts''" "JObject []" False example_auth]
          pageMiddleware_rules [OF r, of "''/admin/api/auth/csrf''" JUndefined False example_auth]
          nosub
    by (simp add: example_args_def example_context_def example_auth_def)
qed

text \<open>
  C1 as the specification states it fails twice. A session that is present but not
  valid is not redirected, and a path that merely contains the auth-API prefix, without
  starting with it, is not redirected either: in both cases the code continues where the
  specification's third rule redirects to the sign-in page.
\<close>

theorem pageMiddleware_counterexample:
  "pageMiddleware example_auth (example_args ''/admin/posts'' (JObject []) False) = Inr None
   \<and> decide_spec example_auth ''/admin/posts'' False
       = Some (Redirect ''/admin/api/auth/signin'')
   \<and> pageMiddleware example_auth (example_args ''/files/admin/api/auth/x'' JUndefined False)
       = Inr None
   \<and> decide_spec example_auth ''/files/admin/api/auth/x'' False
       = Some (Redirect ''/admin/api/auth/signin'')"
  by (simp add: pageMiddleware_def decide_spec_def example_auth_def example_args_def
        example_context_def)

section \<open>What withAuth returns\<close>

lemma example_config_valid: "validateConfig example_auth example_config = Inr ()"
  by (simp add: validateConfig_def get_property_def Object_prototype_members_def
          example_auth_def example_config_def)

lemma withAuth_unfold:
  "validateConfig ac cfg = Inr () \<Longrightarrow>
   withAuth env ac cfg =
     Inr (cfg\<lparr> config_ui :=
                  (case config_ui cfg of
                     None \<Rightarrow> None
                   | Some u \<Rightarrow>
                       Some (u\<lparr> ui_publicPages :=
                                   Some ((case ui_publicPages u of None \<Rightarrow> [] | Some ps \<Rightarrow> ps)
                                         @ publicPages ac),
                                 ui_getAdditionalFiles :=
                                   Some ((case ui_getAdditionalFiles u of None \<Rightarrow> [] | Some fs \<Rightarrow> fs)
                                         @ [getAdditionalFiles env ac]),
                                 ui_pageMiddleware := Some (withAuth_pageMiddleware ac cfg),
                                 ui_enableSessionItem := Some True,
                                 ui_isAccessAllowed := Some (withAuth_isAccessAllowed env ac cfg) \<rparr>)),
                config_session :=
                  (case config_session cfg of
                     None \<Rightarrow> None
                   | Some s \<Rightarrow>
                       if truthy_string (sessionData ac) then Some (withItemData env s) else Some s),
                config_lists := config_lists cfg,
                config_extendGraphqlSchema :=
                  Some (case config_extendGraphqlSchema cfg of
                          Some existing \<Rightarrow> (\<lambda>schema. existing (extendGraphqlSchema env ac schema))
                        | None \<Rightarrow> extendGraphqlSchema env ac) \<rparr>)"
  by (simp add: withAuth_def Let_def)

lemma withAuth_Inl: "validateConfig ac cfg = Inl e \<Longrightarrow> withAuth env ac cfg = Inl e"
  by (simp add: withAuth_def)

section \<open>Configuration validation\<close>

text \<open>
  For keys that are not names of members of \<open>Object.prototype\<close>, \<open>validateConfig\<close> fails
  with the list error when the list is missing, with the field error when the field is
  missing, and returns normally when both exist; \<open>withAuth\<close> fails with the same error and
  returns a configuration whenever validation succeeds.
\<close>

lemma validateConfig_plain_keys:
  assumes "listKey ac \<notin> set Object_prototype_members"
      and "identityField ac \<notin> set Object_prototype_members"
  shows "(config_lists cfg (listKey ac) = None
      \<longrightarrow> validateConfig ac cfg = Inl (ListNotDefined (listKey ac))
        \<and> withAuth env ac cfg = Inl (ListNotDefined (listKey ac)))
   \<and> (\<forall>listConfig. config_lists cfg (listKey ac) = Some listConfig
          \<and> list_fields listConfig (identityField ac) = None
      \<longrightarrow> validateConfig ac cfg = Inl (IdentityFieldNotDefined (listKey ac) (identityField ac))
        \<and> withAuth env ac cfg = Inl (IdentityFieldNotDefined (listKey ac) (identityField ac)))
   \<and> (\<forall>listConfig fieldConfig. config_lists cfg (listKey ac) = Some listConfig
          \<and> list_fields listConfig (identityField ac) = Some fieldConfig
      \<longrightarrow> validateConfig ac cfg = Inr () \<and> (\<exists>cfg'. withAuth env ac cfg = Inr cfg'))"
proof (intro conjI allI impI)
  assume "config_lists cfg (listKey ac) = None"
  then show v: "validateConfig ac cfg = Inl (ListNotDefined (listKey ac))"
    using assms(1) by (simp add: validateConfig_def get_property_def)
  then show "withAuth env ac cfg = Inl (ListNotDefined (listKey ac))"
    by (rule withAuth_Inl)
next
  fix listConfig
  assume "config_lists cfg (listKey ac) = Some listConfig
          \<and> list_fields listConfig (identityField ac) = None"
  then show "validateConfig ac cfg = Inl (IdentityFieldNotDefined (listKey ac) (identityField ac))"
    using assms(2) by (simp add: validateConfig_def get_property_def)
  then show "withAuth env ac cfg = Inl (IdentityFieldNotDefined (listKey ac) (identityField ac))"
    by (rule withAuth_Inl)
next
  fix listConfig fieldConfig
  assume "config_lists cfg (listKey ac) = Some listConfig
          \<and> list_fields listConfig (identityField ac) = Some fieldConfig"
  then show "validateConfig ac cfg = Inr ()"
    by (simp add: validateConfig_def get_property_def)
  then show "\<exists>cfg'. withAuth env ac cfg = Inr cfg'"
    by (simp add: withAuth_unfold)
qed

text \<open>
  C5 (the code at two concrete inputs). The caller's configuration has the list \<open>User\<close>
  with the single field \<open>email\<close>. With \<open>identityField\<close> \<open>toString\<close>, which is no field of the
  list, \<open>validateConfig\<close> returns normally and \<open>withAuth\<close> returns a composed configuration:
  the read \<open>fields['toString']\<close> finds the method that every object inherits. With
  \<open>listKey\<close> \<open>constructor\<close>, which is no list, \<open>validateConfig\<close> and \<open>withAuth\<close> fail with a
  TypeError in place of the error that names the list.
\<close>

theorem validateConfig_inherited_members:
  "validateConfig (example_auth\<lparr>identityField := ''toString''\<rparr>) example_config = Inr ()
   \<and> \<not> isl (withAuth example_env (example_auth\<lparr>identityField := ''toString''\<rparr>) example_config)
   \<and> validateConfig (example_auth\<lparr>listKey := ''constructor''\<rparr>) example_config = Inl TypeError
   \<and> withAuth example_env (example_auth\<lparr>listKey := ''constructor''\<rparr>) example_config
       = Inl TypeError"
proof -
  have a: "validateConfig (example_auth\<lparr>identityField := ''toString''\<rparr>) example_config = Inr ()"
    by (simp add: validateConfig_def get_property_def Object_prototype_members_def
          example_auth_def example_config_def)
  have b: "validateConfig (example_auth\<lparr>listKey := ''constructor''\<rparr>) example_config
             = Inl TypeError"
    by (simp add: validateConfig_def get_property_def Object_prototype_members_def
          example_auth_def example_config_def)
  have "\<not> isl (withAuth example_env (example_auth\<lparr>identityField := ''toString''\<rparr>) example_config)"
    by (simp add: withAuth_unfold [OF a])
  moreover have "withAuth example_env (example_auth\<lparr>listKey := ''constructor''\<rparr>) example_config
             = Inl TypeError"
    by (rule withAuth_Inl [OF b])
  ultimately show ?thesis using a b by simp
qed

section \<open>The composed ui configuration\<close>

text \<open>
  C2 (the code at a concrete input). With the mount path \<open>/admin\<close> and a caller whose
  \<open>ui.publicPages\<close> is \<open>['/welcome']\<close>, the composed list is the caller's entry followed
  by eight paths, the fourth of which is \<open>/admin/api/auth/callack\<close>: the route \<open>callback\<close>
  is misspelt in the source, so \<open>/admin/api/auth/callback\<close> is not among the public pages.
\<close>

theorem withAuth_publicPages_callack:
  "(case withAuth example_env example_auth example_config of
      Inl e \<Rightarrow> None
    | Inr c \<Rightarrow> Option.bind (config_ui c) ui_publicPages)
   = Some [ ''/welcome'',
            ''/admin/api/auth/csrf'',
            ''/admin/api/auth/signin'',
            ''/admin/api/auth/signin/auth0'',
            ''/admin/api/auth/callack'',
            ''/admin/api/auth/callback/auth0'',
            ''/admin/api/auth/session'',
            ''/admin/api/auth/providers'',
            ''/admin/api/auth/signout'' ]"
  unfolding withAuth_unfold [OF example_config_valid]
  by (simp add: example_config_def example_ui_def publicPages_def example_auth_def)

text \<open>
  C6. When the caller's configuration has a \<open>ui.pageMiddleware\<close>, the composed one
  returns this system's redirect when \<open>pageMiddleware\<close> yields one (the caller's function
  is then not consulted), fails when it fails, and otherwise returns what the caller's
  middleware returns on the same arguments.
\<close>

theorem withAuth_pageMiddleware_composed:
  assumes "validateConfig ac cfg = Inr ()"
      and "config_ui cfg = Some u"
      and "ui_pageMiddleware u = Some callerMiddleware"
  shows "\<exists>cfg' u' composed.
           withAuth env ac cfg = Inr cfg'
         \<and> config_ui cfg' = Some u'
         \<and> ui_pageMiddleware u' = Some composed
         \<and> (\<forall>args.
              (\<forall>r. pageMiddleware ac args = Inr (Some r) \<longrightarrow> composed args = Inr (Some r))
            \<and> (pageMiddleware ac args = Inr None \<longrightarrow> composed args = callerMiddleware args)
            \<and> (\<forall>e. pageMiddleware ac args = Inl e \<longrightarrow> composed args = Inl e))"
  using assms(2,3)
  by (simp add: withAuth_unfold [OF assms(1)] withAuth_pageMiddleware_def)

theorem withAuth_pageMiddleware_composed_witness:
  "\<exists>cfg' u' composed.
     withAuth example_env example_auth example_config = Inr cfg'
   \<and> config_ui cfg' = Some u'
   \<and> ui_pageMiddleware u' = Some composed
   \<and> composed (example_args ''/admin/api/auth/signin'' (JObject []) True)
       = Inr (Some (Redirect ''/admin''))
   \<and> composed (example_args ''/admin/posts'' (JObject []) True)
       = Inr (Some (Redirect ''/welcome''))
   \<and> composed (example_args ''/admin/posts'' JUndefined False)
       = Inr (Some (Redirect ''/admin/api/auth/signin''))
   \<and> composed (example_args ''/admin/api/auth/csrf'' JUndefined False)
       = Inl (Fault ''caller'')"
proof -
  have v: "validateConfig example_auth example_config = Inr ()"
    by (simp add: validateConfig_def get_property_def Object_prototype_members_def
          example_auth_def example_config_def)
  have u: "config_ui example_config = Some example_ui"
    by (simp add: example_config_def)
  have m: "ui_pageMiddleware example_ui = Some example_caller_middleware"
    by (simp add: example_ui_def)
  from withAuth_pageMiddleware_composed [OF v u m, of example_env]
  obtain cfg' u' composed where
    c: "withAuth example_env example_auth example_config = Inr cfg'"
       "config_ui cfg' = Some u'" "ui_pageMiddleware u' = Some composed"
    and r: "\<And>args r. pageMiddleware example_auth args = Inr (Some r) \<Longrightarrow> composed args = Inr (Some r)"
    and n: "\<And>args. pageMiddleware example_auth args = Inr None
              \<Longrightarrow> composed args = example_caller_middleware args"
    by blast
  have "composed (example_args ''/admin/api/auth/signin'' (JObject []) True)
          = Inr (Some (Redirect ''/admin''))"
    by (rule r) (simp add: pageMiddleware_def example_args_def example_context_def example_auth_def)
  moreover have "composed (example_args ''/admin/posts'' (JObject []) True)
          = Inr (Some (Redirect ''/welcome''))"
    by (subst n) (simp_all add: pageMiddleware_def example_args_def example_context_def
          example_auth_def example_caller_middleware_def)
  moreover have "composed (example_args ''/admin/posts'' JUndefined False)
          = Inr (Some (Redirect ''/admin/api/auth/signin''))"
    by (rule r) (simp add: pageMiddleware_def example_args_def example_context_def example_auth_def)
  moreover have "composed (example_args ''/admin/api/auth/csrf'' JUndefined False)
          = Inl (Fault ''caller'')"
    by (subst n) (simp_all add: pageMiddleware_def example_args_def example_context_def
          example_auth_def example_caller_middleware_def)
  ultimately show ?thesis using c by blast
qed

text \<open>
  C10. When the caller's configuration has no \<open>ui\<close>, neither has the configuration that
  \<open>withAuth\<close> returns: no public pages, no page middleware, no access predicate and no
  \<open>enableSessionItem\<close> are installed.
\<close>

theorem withAuth_ui_absent:
  assumes "validateConfig ac cfg = Inr ()" and "config_ui cfg = None"
  shows "\<exists>cfg'. withAuth env ac cfg = Inr cfg' \<and> config_ui cfg' = None"
  using assms(2) by (simp add: withAuth_unfold [OF assms(1)])

theorem withAuth_ui_absent_witness:
  "\<exists>cfg'. withAuth example_env example_auth (example_config\<lparr>config_ui := None\<rparr>) = Inr cfg'
         \<and> config_ui cfg' = None"
proof -
  have v: "validateConfig example_auth (example_config\<lparr>config_ui := None\<rparr>) = Inr ()"
    by (simp add: validateConfig_def get_property_def Object_prototype_members_def
          example_auth_def example_config_def)
  have u: "config_ui (example_config\<lparr>config_ui := None\<rparr>) = None"
    by simp
  show ?thesis by (rule withAuth_ui_absent [OF v u])
qed

section \<open>The bootstrap carve-out of isAccessAllowed\<close>

lemma withAuth_isAccessAllowed_init:
  assumes "thisUrl env (map_option req_headers (context_req ctx)) = Inr (Some ref)"
      and "context_req ctx = Some req"
      and "URL_pathname ref = ''/init''"
      and "request_host (req_headers req) = Some (URL_host ref)"
      and "context_sudo_count ctx (listKey ac) = Some (Inr 0)"
  shows "withAuth_isAccessAllowed env ac cfg ctx = Inr True"
  using assms by (simp add: withAuth_isAccessAllowed_def accessingInitPage_def Let_def)

lemma withAuth_isAccessAllowed_fallback:
  assumes "thisUrl env (map_option req_headers (context_req ctx)) = Inr url"
      and "\<forall>ref req. url = Some ref \<and> context_req ctx = Some req
             \<longrightarrow> URL_pathname ref \<noteq> ''/init''
               \<or> request_host (req_headers req) \<noteq> Some (URL_host ref)
               \<or> (\<exists>n. context_sudo_count ctx (listKey ac) = Some (Inr (Suc n)))"
  shows "withAuth_isAccessAllowed env ac cfg ctx =
           (case Option.bind (config_ui cfg) ui_isAccessAllowed of
              Some callerAllowed \<Rightarrow> callerAllowed ctx
            | None \<Rightarrow> Inr (context_session ctx \<noteq> JUndefined))"
proof -
  have "accessingInitPage ac ctx
          (case map_option req_headers (context_req ctx) of None \<Rightarrow> None
           | Some hs \<Rightarrow> request_host hs) url = Inr False"
  proof (cases url)
    case None
    then show ?thesis by (simp add: accessingInitPage_def)
  next
    case (Some ref)
    have "context_req ctx \<noteq> None"
      using assms(1) Some by (auto simp add: thisUrl_def split: option.splits)
    then obtain req where req: "context_req ctx = Some req" by auto
    from assms(2) Some req show ?thesis
      by (auto simp add: accessingInitPage_def)
  qed
  then show ?thesis
    using assms(1) by (simp add: withAuth_isAccessAllowed_def Let_def)
qed

lemma withAuth_isAccessAllowed_referer_error:
  assumes "context_req ctx = Some req"
      and "referer (req_headers req) = Some r"
      and "r \<noteq> []"
      and "URL_new env r = None"
  shows "withAuth_isAccessAllowed env ac cfg ctx = Inl TypeError"
  using assms by (simp add: withAuth_isAccessAllowed_def thisUrl_def Let_def)

lemma withAuth_isAccessAllowed_count_error:
  assumes "thisUrl env (map_option req_headers (context_req ctx)) = Inr (Some ref)"
      and "context_req ctx = Some req"
      and "URL_pathname ref = ''/init''"
      and "request_host (req_headers req) = Some (URL_host ref)"
      and "context_sudo_count ctx (listKey ac) = Some (Inl e)"
  shows "withAuth_isAccessAllowed env ac cfg ctx = Inl e"
  using assms by (simp add: withAuth_isAccessAllowed_def accessingInitPage_def Let_def)

lemma withAuth_isAccessAllowed_no_list:
  assumes "thisUrl env (map_option req_headers (context_req ctx)) = Inr (Some ref)"
      and "context_req ctx = Some req"
      and "URL_pathname ref = ''/init''"
      and "request_host (req_headers req) = Some (URL_host ref)"
      and "context_sudo_count ctx (listKey ac) = None"
  shows "withAuth_isAccessAllowed env ac cfg ctx = Inl TypeError"
  using assms by (simp add: withAuth_isAccessAllowed_def accessingInitPage_def Let_def)

text \<open>
  C4. The composed \<open>isAccessAllowed\<close> allows access, whatever the caller's predicate and
  the session, when the referer's path is \<open>/init\<close>, the referer's host is the host of the
  request (\<open>x-forwarded-host\<close>, else \<open>host\<close>) and the privileged count of the configured
  list is zero. When the referer is missing, or one of the three conditions fails, the
  result is the caller's own predicate when there is one, and otherwise whether the
  session is defined. On the remaining paths no access is granted, because the predicate
  fails: with a TypeError when the referer is no URL, with the data layer's error when
  the two referer conditions hold and the count fails, and with a TypeError when they
  hold and the privileged context has no such list.
\<close>

theorem withAuth_isAccessAllowed_bootstrap:
  assumes "validateConfig ac cfg = Inr ()"
      and "config_ui cfg = Some u"
  shows "\<exists>cfg' u' composed.
           withAuth env ac cfg = Inr cfg'
         \<and> config_ui cfg' = Some u'
         \<and> ui_isAccessAllowed u' = Some composed
         \<and> (\<forall>ctx req ref.
               thisUrl env (map_option req_headers (context_req ctx)) = Inr (Some ref)
               \<and> context_req ctx = Some req
               \<and> URL_pathname ref = ''/init''
               \<and> request_host (req_headers req) = Some (URL_host ref)
               \<and> context_sudo_count ctx (listKey ac) = Some (Inr 0)
               \<longrightarrow> composed ctx = Inr True)
         \<and> (\<forall>ctx url.
               thisUrl env (map_option req_headers (context_req ctx)) = Inr url
               \<and> (\<forall>ref req. url = Some ref \<and> context_req ctx = Some req
                     \<longrightarrow> URL_pathname ref \<noteq> ''/init''
                       \<or> request_host (req_headers req) \<noteq> Some (URL_host ref)
                       \<or> (\<exists>n. context_sudo_count ctx (listKey ac) = Some (Inr (Suc n))))
               \<longrightarrow> composed ctx =
                     (case ui_isAccessAllowed u of
                        Some callerAllowed \<Rightarrow> callerAllowed ctx
                      | None \<Rightarrow> Inr (context_session ctx \<noteq> JUndefined)))
         \<and> (\<forall>ctx req r.
               context_req ctx = Some req
               \<and> referer (req_headers req) = Some r \<and> r \<noteq> [] \<and> URL_new env r = None
               \<longrightarrow> composed ctx = Inl TypeError)
         \<and> (\<forall>ctx req ref e.
               thisUrl env (map_option req_headers (context_req ctx)) = Inr (Some ref)
               \<and> context_req ctx = Some req
               \<and> URL_pathname ref = ''/init''
               \<and> request_host (req_headers req) = Some (URL_host ref)
               \<and> context_sudo_count ctx (listKey ac) = Some (Inl e)
               \<longrightarrow> composed ctx = Inl e)
         \<and> (\<forall>ctx req ref.
               thisUrl env (map_option req_headers (context_req ctx)) = Inr (Some ref)
               \<and> context_req ctx = Some req
               \<and> URL_pathname ref = ''/init''
               \<and> request_host (req_headers req) = Some (URL_host ref)
               \<and> context_sudo_count ctx (listKey ac) = None
               \<longrightarrow> composed ctx = Inl TypeError)"
proof -
  let ?composed = "withAuth_isAccessAllowed env ac cfg"
  have c: "\<forall>ctx req r.
               context_req ctx = Some req
               \<and> referer (req_headers req) = Some r \<and> r \<noteq> [] \<and> URL_new env r = None
               \<longrightarrow> ?composed ctx = Inl TypeError"
    using withAuth_isAccessAllowed_referer_error by blast
  have d: "\<forall>ctx req ref e.
               thisUrl env (map_option req_headers (context_req ctx)) = Inr (Some ref)
               \<and> context_req ctx = Some req
               \<and> URL_pathname ref = ''/init''
               \<and> request_host (req_headers req) = Some (URL_host ref)
               \<and> context_sudo_count ctx (listKey ac) = Some (Inl e)
               \<longrightarrow> ?composed ctx = Inl e"
    using withAuth_isAccessAllowed_count_error by blast
  have e: "\<forall>ctx req ref.
               thisUrl env (map_option req_headers (context_req ctx)) = Inr (Some ref)
               \<and> context_req ctx = Some req
               \<and> URL_pathname ref = ''/init''
               \<and> request_host (req_headers req) = Some (URL_host ref)
               \<and> context_sudo_count ctx (listKey ac) = None
               \<longrightarrow> ?composed ctx = Inl TypeError"
    using withAuth_isAccessAllowed_no_list by blast
  have a: "\<forall>ctx req ref.
               thisUrl env (map_option req_headers (context_req ctx)) = Inr (Some ref)
               \<and> context_req ctx = Some req
               \<and> URL_pathname ref = ''/init''
               \<and> request_host (req_headers req) = Some (URL_host ref)
               \<and> context_sudo_count ctx (listKey ac) = Some (Inr 0)
               \<longrightarrow> ?composed ctx = Inr True"
    using withAuth_isAccessAllowed_init by blast
  have b: "\<forall>ctx url.
               thisUrl env (map_option req_headers (context_req ctx)) = Inr url
               \<and> (\<forall>ref req. url = Some ref \<and> context_req ctx = Some req
                     \<longrightarrow> URL_pathname ref \<noteq> ''/init''
                       \<or> request_host (req_headers req) \<noteq> Some (URL_host ref)
                       \<or> (\<exists>n. context_sudo_count ctx (listKey ac) = Some (Inr (Suc n))))
               \<longrightarrow> ?composed ctx =
                     (case ui_isAccessAllowed u of
                        Some callerAllowed \<Rightarrow> callerAllowed ctx
                      | None \<Rightarrow> Inr (context_session ctx \<noteq> JUndefined))"
  proof (intro allI impI)
    fix ctx :: keystone_context and url :: "URL option"
    assume h: "thisUrl env (map_option req_headers (context_req ctx)) = Inr url
               \<and> (\<forall>ref req. url = Some ref \<and> context_req ctx = Some req
                     \<longrightarrow> URL_pathname ref \<noteq> ''/init''
                       \<or> request_host (req_headers req) \<noteq> Some (URL_host ref)
                       \<or> (\<exists>n. context_sudo_count ctx (listKey ac) = Some (Inr (Suc n))))"
    show "?composed ctx =
                     (case ui_isAccessAllowed u of
                        Some callerAllowed \<Rightarrow> callerAllowed ctx
                      | None \<Rightarrow> Inr (context_session ctx \<noteq> JUndefined))"
      using withAuth_isAccessAllowed_fallback [of env ctx url ac cfg] h assms(2) by simp
  qed
  have "withAuth env ac cfg
          = Inr (cfg\<lparr> config_ui :=
                  (case config_ui cfg of
                     None \<Rightarrow> None
                   | Some u \<Rightarrow>
                       Some (u\<lparr> ui_publicPages :=
                                   Some ((case ui_publicPages u of None \<Rightarrow> [] | Some ps \<Rightarrow> ps)
                                         @ publicPages ac),
                                 ui_getAdditionalFiles :=
                                   Some ((case ui_getAdditionalFiles u of None \<Rightarrow> [] | Some fs \<Rightarrow> fs)
                                         @ [getAdditionalFiles env ac]),
                                 ui_pageMiddleware := Some (withAuth_pageMiddleware ac cfg),
                                 ui_enableSessionItem := Some True,
                                 ui_isAccessAllowed := Some (withAuth_isAccessAllowed env ac cfg) \<rparr>)),
                config_session :=
                  (case config_session cfg of
                     None \<Rightarrow> None
                   | Some s \<Rightarrow>
                       if truthy_string (sessionData ac) then Some (withItemData env s) else Some s),
                config_lists := config_lists cfg,
                config_extendGraphqlSchema :=
                  Some (case config_extendGraphqlSchema cfg of
                          Some existing \<Rightarrow> (\<lambda>schema. existing (extendGraphqlSchema env ac schema))
                        | None \<Rightarrow> extendGraphqlSchema env ac) \<rparr>)"
    by (rule withAuth_unfold [OF assms(1)])
  then show ?thesis
    using assms(2) a b c d e by simp
qed

theorem withAuth_isAccessAllowed_bootstrap_witness:
  "\<exists>cfg' u' composed.
     withAuth example_env example_auth example_config = Inr cfg'
   \<and> config_ui cfg' = Some u'
   \<and> ui_isAccessAllowed u' = Some composed
   \<and> composed (example_context ''/api/graphql'' (Some ''http://localhost:3000/init'') JUndefined 0)
       = Inr True
   \<and> composed (example_context ''/api/graphql'' (Some ''http://localhost:3000/init'') JUndefined 2)
       = Inr False
   \<and> composed (example_context ''/api/graphql'' (Some ''http://evil.example/init'') JUndefined 0)
       = Inr False
   \<and> composed (example_context ''/api/graphql'' (Some ''http://localhost:3000/signin'') JUndefined 0)
       = Inr False
   \<and> composed (example_context ''/api/graphql'' (Some ''http://localhost:3000/signin'') (JObject []) 0)
       = Inr True
   \<and> composed (example_context ''/api/graphql'' None JNull 0) = Inr True
   \<and> composed (example_context ''/api/graphql'' (Some ''not a url'') (JObject []) 0)
       = Inl TypeError
   \<and> composed ((example_context ''/api/graphql'' (Some ''http://localhost:3000/init'')
                   (JObject []) 0)
                  \<lparr> context_sudo_count := (\<lambda>k. Some (Inl (Fault ''db''))) \<rparr>)
       = Inl (Fault ''db'')
   \<and> composed ((example_context ''/api/graphql'' (Some ''http://localhost:3000/init'')
                   (JObject []) 0)
                  \<lparr> context_sudo_count := Map.empty \<rparr>)
       = Inl TypeError"
proof -
  have v: "validateConfig example_auth example_config = Inr ()"
    by (simp add: validateConfig_def get_property_def Object_prototype_members_def
          example_auth_def example_config_def)
  have u: "config_ui example_config = Some example_ui"
    by (simp add: example_config_def)
  have r: "\<And>path ref s n. context_req (example_context path ref s n)
             = Some \<lparr> req_pathname = path, req_headers = example_headers ref \<rparr>"
    by (simp add: example_context_def)
  have t0: "\<And>path s n.
      thisUrl example_env (map_option req_headers (context_req (example_context path None s n)))
        = Inr None"
    by (simp add: thisUrl_def example_context_def example_headers_def)
  have t1: "\<And>path s n.
      thisUrl example_env (map_option req_headers
          (context_req (example_context path (Some ''http://localhost:3000/init'') s n)))
        = Inr (Some \<lparr> URL_pathname = ''/init'', URL_host = ''localhost:3000'' \<rparr>)"
    by (simp add: thisUrl_def example_context_def example_headers_def example_env_def
          example_URL_new_def)
  have t2: "\<And>path s n.
      thisUrl example_env (map_option req_headers
          (context_req (example_context path (Some ''http://evil.example/init'') s n)))
        = Inr (Some \<lparr> URL_pathname = ''/init'', URL_host = ''evil.example'' \<rparr>)"
    by (simp add: thisUrl_def example_context_def example_headers_def example_env_def
          example_URL_new_def)
  have t3: "\<And>path s n.
      thisUrl example_env (map_option req_headers
          (context_req (example_context path (Some ''http://localhost:3000/signin'') s n)))
        = Inr (Some \<lparr> URL_pathname = ''/signin'', URL_host = ''localhost:3000'' \<rparr>)"
    by (simp add: thisUrl_def example_context_def example_headers_def example_env_def
          example_URL_new_def)
  from withAuth_isAccessAllowed_bootstrap [OF v u, of example_env]
  obtain cfg' u' composed where
    c: "withAuth example_env example_auth example_config = Inr cfg'"
       "config_ui cfg' = Some u'" "ui_isAccessAllowed u' = Some composed"
    and A: "\<forall>ctx req ref.
               thisUrl example_env (map_option req_headers (context_req ctx)) = Inr (Some ref)
               \<and> context_req ctx = Some req
               \<and> URL_pathname ref = ''/init''
               \<and> request_host (req_headers req) = Some (URL_host ref)
               \<and> context_sudo_count ctx (listKey example_auth) = Some (Inr 0)
               \<longrightarrow> composed ctx = Inr True"
    and B: "\<forall>ctx url.
               thisUrl example_env (map_option req_headers (context_req ctx)) = Inr url
               \<and> (\<forall>ref req. url = Some ref \<and> context_req ctx = Some req
                     \<longrightarrow> URL_pathname ref \<noteq> ''/init''
                       \<or> request_host (req_headers req) \<noteq> Some (URL_host ref)
                       \<or> (\<exists>n. context_sudo_count ctx (listKey example_auth) = Some (Inr (Suc n))))
               \<longrightarrow> composed ctx =
                     (case ui_isAccessAllowed example_ui of
                        Some callerAllowed \<Rightarrow> callerAllowed ctx
                      | None \<Rightarrow> Inr (context_session ctx \<noteq> JUndefined))"
    and C: "\<forall>ctx req r.
               context_req ctx = Some req
               \<and> referer (req_headers req) = Some r \<and> r \<noteq> [] \<and> URL_new example_env r = None
               \<longrightarrow> composed ctx = Inl TypeError"
    and D: "\<forall>ctx req ref e.
               thisUrl example_env (map_option req_headers (context_req ctx)) = Inr (Some ref)
               \<and> context_req ctx = Some req
               \<and> URL_pathname ref = ''/init''
               \<and> request_host (req_headers req) = Some (URL_host ref)
               \<and> context_sudo_count ctx (listKey example_auth) = Some (Inl e)
               \<longrightarrow> composed ctx = Inl e"
    and E: "\<forall>ctx req ref.
               thisUrl example_env (map_option req_headers (context_req ctx)) = Inr (Some ref)
               \<and> context_req ctx = Some req
               \<and> URL_pathname ref = ''/init''
               \<and> request_host (req_headers req) = Some (URL_host ref)
               \<and> context_sudo_count ctx (listKey example_auth) = None
               \<longrightarrow> composed ctx = Inl TypeError"
    by (elim exE conjE) (rule that; assumption)
  have a: "\<And>ctx req ref.
               thisUrl example_env (map_option req_headers (context_req ctx)) = Inr (Some ref)
               \<Longrightarrow> context_req ctx = Some req
               \<Longrightarrow> URL_pathname ref = ''/init''
               \<Longrightarrow> request_host (req_headers req) = Some (URL_host ref)
               \<Longrightarrow> context_sudo_count ctx (listKey example_auth) = Some (Inr 0)
               \<Longrightarrow> composed ctx = Inr True"
    using A by blast
  have b: "\<And>ctx url.
               thisUrl example_env (map_option req_headers (context_req ctx)) = Inr url
               \<Longrightarrow> (\<forall>ref req. url = Some ref \<and> context_req ctx = Some req
                     \<longrightarrow> URL_pathname ref \<noteq> ''/init''
                       \<or> request_host (req_headers req) \<noteq> Some (URL_host ref)
                       \<or> (\<exists>n. context_sudo_count ctx (listKey example_auth) = Some (Inr (Suc n))))
               \<Longrightarrow> composed ctx =
                     (case ui_isAccessAllowed example_ui of
                        Some callerAllowed \<Rightarrow> callerAllowed ctx
                      | None \<Rightarrow> Inr (context_session ctx \<noteq> JUndefined))"
    using B by blast
  have bad: "\<And>ctx req r.
               context_req ctx = Some req
               \<Longrightarrow> referer (req_headers req) = Some r \<Longrightarrow> r \<noteq> []
               \<Longrightarrow> URL_new example_env r = None
               \<Longrightarrow> composed ctx = Inl TypeError"
    using C by blast
  have cnt: "\<And>ctx req ref e.
               thisUrl example_env (map_option req_headers (context_req ctx)) = Inr (Some ref)
               \<Longrightarrow> context_req ctx = Some req
               \<Longrightarrow> URL_pathname ref = ''/init''
               \<Longrightarrow> request_host (req_headers req) = Some (URL_host ref)
               \<Longrightarrow> context_sudo_count ctx (listKey example_auth) = Some (Inl e)
               \<Longrightarrow> composed ctx = Inl e"
    using D by blast
  have nol: "\<And>ctx req ref.
               thisUrl example_env (map_option req_headers (context_req ctx)) = Inr (Some ref)
               \<Longrightarrow> context_req ctx = Some req
               \<Longrightarrow> URL_pathname ref = ''/init''
               \<Longrightarrow> request_host (req_headers req) = Some (URL_host ref)
               \<Longrightarrow> context_sudo_count ctx (listKey example_auth) = None
               \<Longrightarrow> composed ctx = Inl TypeError"
    using E by blast
  let ?init = "example_context ''/api/graphql'' (Some ''http://localhost:3000/init'')
                 (JObject []) 0"
  have ri: "\<And>f. context_req (?init\<lparr> context_sudo_count := f \<rparr>)
             = Some \<lparr> req_pathname = ''/api/graphql'',
                      req_headers = example_headers (Some ''http://localhost:3000/init'') \<rparr>"
    by (simp add: example_context_def)
  have ti: "\<And>f. thisUrl example_env
              (map_option req_headers (context_req (?init\<lparr> context_sudo_count := f \<rparr>)))
             = Inr (Some \<lparr> URL_pathname = ''/init'', URL_host = ''localhost:3000'' \<rparr>)"
    by (simp add: thisUrl_def example_context_def example_headers_def example_env_def
          example_URL_new_def)
  have x1: "composed (example_context ''/api/graphql'' (Some ''not a url'') (JObject []) 0)
       = Inl TypeError"
    by (rule bad [OF r, where r = "''not a url''"])
       (simp_all add: example_headers_def example_env_def example_URL_new_def)
  have x2: "composed (?init\<lparr> context_sudo_count := (\<lambda>k. Some (Inl (Fault ''db''))) \<rparr>)
       = Inl (Fault ''db'')"
    by (rule cnt [OF ti ri]) (simp_all add: example_headers_def request_host_def)
  have x3: "composed (?init\<lparr> context_sudo_count := Map.empty \<rparr>) = Inl TypeError"
    by (rule nol [OF ti ri]) (simp_all add: example_headers_def request_host_def)
  have y1: "composed (example_context ''/api/graphql'' (Some ''http://localhost:3000/init'') JUndefined 0)
       = Inr True"
    by (rule a [OF t1 r]) (simp_all add: example_URL_new_def example_context_def
          example_headers_def request_host_def example_auth_def)
  have y2: "composed (example_context ''/api/graphql'' (Some ''http://localhost:3000/init'') JUndefined 2)
       = Inr False"
    by (subst b [OF t1]) (simp_all add: example_URL_new_def example_context_def
          example_headers_def request_host_def example_auth_def example_ui_def numeral_2_eq_2)
  have y3: "composed (example_context ''/api/graphql'' (Some ''http://evil.example/init'') JUndefined 0)
       = Inr False"
    by (subst b [OF t2]) (simp_all add: example_URL_new_def example_context_def
          example_headers_def request_host_def example_auth_def example_ui_def)
  have y4: "composed (example_context ''/api/graphql'' (Some ''http://localhost:3000/signin'') JUndefined 0)
       = Inr False"
    by (subst b [OF t3]) (simp_all add: example_URL_new_def example_context_def
          example_headers_def request_host_def example_auth_def example_ui_def)
  have y5: "composed (example_context ''/api/graphql'' (Some ''http://localhost:3000/signin'') (JObject []) 0)
       = Inr True"
    by (subst b [OF t3]) (simp_all add: example_URL_new_def example_context_def
          example_headers_def request_host_def example_auth_def example_ui_def)
  have y6: "composed (example_context ''/api/graphql'' None JNull 0) = Inr True"
    by (subst b [OF t0]) (simp_all add: example_URL_new_def example_context_def
          example_headers_def request_host_def example_auth_def example_ui_def)
  show ?thesis
    by (intro exI [of _ cfg'] exI [of _ u'] exI [of _ composed] conjI)
       (rule c y1 y2 y3 y4 y5 y6 x1 x2 x3)+
qed

section \<open>The session strategy\<close>

text \<open>
  C8. The wrapped strategy keeps every capability of the base strategy other than \<open>get\<close>.
  Its \<open>get\<close> returns undefined for every request whose path contains \<open>/api/auth\<close>, whatever
  the identity provider would answer (it is not consulted), and for every other request
  it returns the identity provider's session when that is truthy and undefined otherwise.
\<close>

theorem withItemData_get_rules:
  "strategy_rest (withItemData env s) = strategy_rest s
   \<and> (\<forall>req. (\<exists>ps ss. req_pathname req = ps @ ''/api/auth'' @ ss)
          \<longrightarrow> get (withItemData env s) (Some req) = Inr JUndefined)
   \<and> (\<forall>req nextSession.
          \<not> (\<exists>ps ss. req_pathname req = ps @ ''/api/auth'' @ ss)
          \<and> getSession env (Some req) = Inr nextSession
          \<longrightarrow> get (withItemData env s) (Some req)
                = Inr (if truthy nextSession then nextSession else JUndefined))"
  by (simp add: withItemData_def withItemData_get_def str_includes_iff Let_def)

theorem withItemData_get_rules_witness:
  "get (withItemData example_env example_strategy)
       (Some \<lparr> req_pathname = ''/admin/api/auth/session'', req_headers = example_headers None \<rparr>)
     = Inr JUndefined
   \<and> get (withItemData example_env example_strategy)
       (Some \<lparr> req_pathname = ''/admin/posts'', req_headers = example_headers None \<rparr>)
     = Inr (JObject [(''user'', JString ''ada'')])
   \<and> get (withItemData example_env example_strategy)
       (Some \<lparr> req_pathname = ''/admin/anonymous'', req_headers = example_headers None \<rparr>)
     = Inr JUndefined"
proof -
  have a: "\<exists>ps ss. ''/admin/api/auth/session'' = ps @ ''/api/auth'' @ ss"
    unfolding str_includes_iff [symmetric] by simp
  have b: "\<not> (\<exists>ps ss. ''/admin/posts'' = ps @ ''/api/auth'' @ ss)"
    unfolding str_includes_iff [symmetric] by simp
  have c: "\<not> (\<exists>ps ss. ''/admin/anonymous'' = ps @ ''/api/auth'' @ ss)"
    unfolding str_includes_iff [symmetric] by simp
  have g1: "getSession example_env
              (Some \<lparr> req_pathname = ''/admin/posts'', req_headers = example_headers None \<rparr>)
            = Inr (JObject [(''user'', JString ''ada'')])"
    by (simp add: example_env_def example_getSession_def)
  have g2: "getSession example_env
              (Some \<lparr> req_pathname = ''/admin/anonymous'', req_headers = example_headers None \<rparr>)
            = Inr JNull"
    by (simp add: example_env_def example_getSession_def)
  note w = withItemData_get_rules [of example_env example_strategy]
  from w a have "get (withItemData example_env example_strategy)
       (Some \<lparr> req_pathname = ''/admin/api/auth/session'', req_headers = example_headers None \<rparr>)
     = Inr JUndefined"
    by simp
  moreover from w b g1 have "get (withItemData example_env example_strategy)
       (Some \<lparr> req_pathname = ''/admin/posts'', req_headers = example_headers None \<rparr>)
     = Inr (JObject [(''user'', JString ''ada'')])"
    by simp
  moreover from w c g2 have "get (withItemData example_env example_strategy)
       (Some \<lparr> req_pathname = ''/admin/anonymous'', req_headers = example_headers None \<rparr>)
     = Inr JUndefined"
    by simp
  ultimately show ?thesis by simp
qed

text \<open>
  C7. The session of the returned configuration is the wrap of the caller's strategy
  when the caller has a session strategy and \<open>sessionData\<close> is set (a non-empty string, the
  truthiness test of the source); when either is missing it is the caller's own value.
\<close>

theorem withAuth_session:
  assumes "validateConfig ac cfg = Inr ()"
  shows "\<exists>cfg'. withAuth env ac cfg = Inr cfg'
         \<and> (\<forall>s. config_session cfg = Some s \<and> truthy_string (sessionData ac)
                \<longrightarrow> config_session cfg' = Some (withItemData env s))
         \<and> (config_session cfg = None \<or> \<not> truthy_string (sessionData ac)
                \<longrightarrow> config_session cfg' = config_session cfg)"
  by (auto simp add: withAuth_unfold [OF assms] split: option.splits)

theorem withAuth_session_witness:
  "(\<exists>cfg'. withAuth example_env example_auth example_config = Inr cfg'
          \<and> config_session cfg' = Some (withItemData example_env example_strategy))
   \<and> (\<exists>cfg'. withAuth example_env (example_auth\<lparr>sessionData := None\<rparr>) example_config = Inr cfg'
          \<and> config_session cfg' = Some example_strategy)
   \<and> (\<exists>cfg'. withAuth example_env example_auth (example_config\<lparr>config_session := None\<rparr>) = Inr cfg'
          \<and> config_session cfg' = None)"
proof -
  have v1: "validateConfig example_auth example_config = Inr ()"
    by (simp add: validateConfig_def get_property_def Object_prototype_members_def
          example_auth_def example_config_def)
  have v2: "validateConfig (example_auth\<lparr>sessionData := None\<rparr>) example_config = Inr ()"
    by (simp add: validateConfig_def get_property_def Object_prototype_members_def
          example_auth_def example_config_def)
  have v3: "validateConfig example_auth (example_config\<lparr>config_session := None\<rparr>) = Inr ()"
    by (simp add: validateConfig_def get_property_def Object_prototype_members_def
          example_auth_def example_config_def)
  show ?thesis
    using withAuth_session [OF v1, of example_env] withAuth_session [OF v2, of example_env]
          withAuth_session [OF v3, of example_env]
    by (auto simp add: example_config_def example_auth_def)
qed

section \<open>Composition of the schema extensions\<close>

text \<open>
  C3 (as the code has it). The composed \<open>extendGraphqlSchema\<close> applies this system's
  extension to the schema first and the caller's extension to the result; without a
  caller's extension it is this system's extension.
\<close>

theorem withAuth_extendGraphqlSchema:
  assumes "validateConfig ac cfg = Inr ()"
  shows "\<exists>cfg' composed.
           withAuth env ac cfg = Inr cfg'
         \<and> config_extendGraphqlSchema cfg' = Some composed
         \<and> (\<forall>schema. composed schema =
               (case config_extendGraphqlSchema cfg of
                  Some existing \<Rightarrow> existing (extendGraphqlSchema env ac schema)
                | None \<Rightarrow> extendGraphqlSchema env ac schema))"
  by (simp add: withAuth_unfold [OF assms] split: option.splits)

theorem withAuth_extendGraphqlSchema_witness:
  "\<exists>cfg' composed.
     withAuth example_env example_auth example_config = Inr cfg'
   \<and> config_extendGraphqlSchema cfg' = Some composed
   \<and> composed [] = [''authenticateUserWithPassword'', ''X'']"
proof -
  have v: "validateConfig example_auth example_config = Inr ()"
    by (simp add: validateConfig_def get_property_def Object_prototype_members_def
          example_auth_def example_config_def)
  from withAuth_extendGraphqlSchema [OF v, of example_env]
  obtain cfg' composed where
    "withAuth example_env example_auth example_config = Inr cfg'"
    "config_extendGraphqlSchema cfg' = Some composed"
    "composed [] = (case config_extendGraphqlSchema example_config of
                  Some existing \<Rightarrow> existing (extendGraphqlSchema example_env example_auth [])
                | None \<Rightarrow> extendGraphqlSchema example_env example_auth [])"
    by blast
  moreover have "(case config_extendGraphqlSchema example_config of
                  Some existing \<Rightarrow> existing (extendGraphqlSchema example_env example_auth [])
                | None \<Rightarrow> extendGraphqlSchema example_env example_auth [])
        = [''authenticateUserWithPassword'', ''X'']"
    by (simp add: example_config_def example_caller_extension_def extendGraphqlSchema_def
          example_env_def gqlNames_def example_auth_def)
  ultimately show ?thesis by auto
qed

text \<open>
  C3 as the specification states it fails: with a caller's extension that appends the
  field \<open>X\<close> and this system's extension that appends its mutation, the composed extension
  yields this system's field first and \<open>X\<close> after it, where "caller first" would yield
  \<open>X\<close> first.
\<close>

theorem extendGraphqlSchema_order_counterexample:
  "(case withAuth example_env example_auth example_config of
      Inl e \<Rightarrow> None
    | Inr c \<Rightarrow> map_option (\<lambda>composed. composed []) (config_extendGraphqlSchema c))
     = Some [''authenticateUserWithPassword'', ''X'']
   \<and> extendGraphqlSchema example_env example_auth (example_caller_extension [])
     = [''X'', ''authenticateUserWithPassword'']"
  unfolding withAuth_unfold [OF example_config_valid]
  by (simp add: example_config_def example_caller_extension_def extendGraphqlSchema_def
        example_env_def gqlNames_def example_auth_def)

section \<open>withAuth leaves the caller's objects as they are\<close>

lemma store_lookup_prefix:
  "prefix s s' \<Longrightarrow> store_lookup s a = Some x \<Longrightarrow> store_lookup s' a = Some x"
  by (auto simp add: store_lookup_def prefix_def nth_append split: if_splits)

lemma store_lookup_old:
  "prefix s s' \<Longrightarrow> a < length s \<Longrightarrow> store_lookup s' a = store_lookup s a"
  by (auto simp add: store_lookup_def prefix_def nth_append)

lemma store_lookup_bound: "store_lookup s a = Some x \<Longrightarrow> a < length s"
  by (simp add: store_lookup_def split: if_splits)

lemma read_strings_prefix:
  "prefix s s' \<Longrightarrow> read_strings s a = Some xs \<Longrightarrow> read_strings s' a = Some xs"
  by (auto simp add: read_strings_def split: option.splits object.splits
        dest: store_lookup_prefix)

lemma read_functions_prefix:
  "prefix s s' \<Longrightarrow> read_functions s a = Some fs \<Longrightarrow> read_functions s' a = Some fs"
  by (auto simp add: read_functions_def split: option.splits object.splits
        dest: store_lookup_prefix)

lemma read_lists_prefix:
  "prefix s s' \<Longrightarrow> read_lists s a = Some ls \<Longrightarrow> read_lists s' a = Some ls"
  by (auto simp add: read_lists_def split: option.splits object.splits
        dest: store_lookup_prefix)

lemma read_strategy_prefix:
  "prefix s s' \<Longrightarrow> read_strategy s a = Some st \<Longrightarrow> read_strategy s' a = Some st"
  by (auto simp add: read_strategy_def split: option.splits object.splits
        dest: store_lookup_prefix)

lemma read_optional_mono:
  assumes "\<And>a x. rd a = Some x \<Longrightarrow> rd' a = Some x"
      and "read_optional rd ao = Some y"
  shows "read_optional rd' ao = Some y"
  using assms by (cases ao) auto

lemma read_ui_prefix:
  assumes "prefix s s'" and "read_ui s a = Some u"
  shows "read_ui s' a = Some u"
proof -
  from assms(2) obtain uo pages files where
    l: "store_lookup s a = Some (UiObject uo)"
    and p: "read_optional (read_strings s) (object_publicPages uo) = Some pages"
    and f: "read_optional (read_functions s) (object_getAdditionalFiles uo) = Some files"
    and u: "u = \<lparr> ui_publicPages = pages, ui_getAdditionalFiles = files,
                  ui_pageMiddleware = object_pageMiddleware uo,
                  ui_enableSessionItem = object_enableSessionItem uo,
                  ui_isAccessAllowed = object_isAccessAllowed uo,
                  ui_rest = object_ui_rest uo \<rparr>"
    by (auto simp add: read_ui_def split: option.splits object.splits)
  have l': "store_lookup s' a = Some (UiObject uo)"
    by (rule store_lookup_prefix [OF assms(1) l])
  have p': "read_optional (read_strings s') (object_publicPages uo) = Some pages"
    by (rule read_optional_mono [OF read_strings_prefix [OF assms(1)] p])
  have f': "read_optional (read_functions s') (object_getAdditionalFiles uo) = Some files"
    by (rule read_optional_mono [OF read_functions_prefix [OF assms(1)] f])
  show ?thesis by (simp add: read_ui_def l' p' f' u)
qed

lemma read_config_prefix:
  assumes "prefix s s'" and "read_config s a = Some cfg"
  shows "read_config s' a = Some cfg"
proof -
  from assms(2) obtain c ls u st where
    l: "store_lookup s a = Some (ConfigObject c)"
    and ls: "read_lists s (object_lists c) = Some ls"
    and u: "read_optional (read_ui s) (object_ui c) = Some u"
    and st: "read_optional (read_strategy s) (object_session c) = Some st"
    and cfg: "cfg = \<lparr> config_lists = ls, config_ui = u, config_session = st,
                      config_extendGraphqlSchema = object_extendGraphqlSchema c,
                      config_rest = object_rest c \<rparr>"
    by (auto simp add: read_config_def split: option.splits object.splits)
  have l': "store_lookup s' a = Some (ConfigObject c)"
    by (rule store_lookup_prefix [OF assms(1) l])
  have ls': "read_lists s' (object_lists c) = Some ls"
    by (rule read_lists_prefix [OF assms(1) ls])
  have u': "read_optional (read_ui s') (object_ui c) = Some u"
    by (rule read_optional_mono [OF read_ui_prefix [OF assms(1)] u])
  have st': "read_optional (read_strategy s') (object_session c) = Some st"
    by (rule read_optional_mono [OF read_strategy_prefix [OF assms(1)] st])
  show ?thesis by (simp add: read_config_def l' ls' u' st' cfg)
qed

lemma withAuth_ui_store_result:
  assumes "read_ui s a = Some u"
  shows "\<exists>s1 a1. withAuth_ui_store env ac cfg s a = Some (s1, a1)
           \<and> prefix s s1 \<and> length s \<le> a1
           \<and> read_ui s1 a1 =
               Some (u\<lparr> ui_publicPages :=
                           Some ((case ui_publicPages u of None \<Rightarrow> [] | Some ps \<Rightarrow> ps)
                                 @ publicPages ac),
                         ui_getAdditionalFiles :=
                           Some ((case ui_getAdditionalFiles u of None \<Rightarrow> [] | Some fs \<Rightarrow> fs)
                                 @ [getAdditionalFiles env ac]),
                         ui_pageMiddleware := Some (withAuth_pageMiddleware ac cfg),
                         ui_enableSessionItem := Some True,
                         ui_isAccessAllowed := Some (withAuth_isAccessAllowed env ac cfg) \<rparr>)"
proof -
  from assms obtain uo pages files where
    l: "store_lookup s a = Some (UiObject uo)"
    and p: "read_optional (read_strings s) (object_publicPages uo) = Some pages"
    and f: "read_optional (read_functions s) (object_getAdditionalFiles uo) = Some files"
    and u: "u = \<lparr> ui_publicPages = pages, ui_getAdditionalFiles = files,
                  ui_pageMiddleware = object_pageMiddleware uo,
                  ui_enableSessionItem = object_enableSessionItem uo,
                  ui_isAccessAllowed = object_isAccessAllowed uo,
                  ui_rest = object_ui_rest uo \<rparr>"
    by (auto simp add: read_ui_def split: option.splits object.splits)
  let ?A = "StringArray ((case pages of None \<Rightarrow> [] | Some ps \<Rightarrow> ps) @ publicPages ac)"
  let ?B = "FunctionArray ((case files of None \<Rightarrow> [] | Some fs \<Rightarrow> fs) @ [getAdditionalFiles env ac])"
  let ?C = "UiObject (uo\<lparr> object_publicPages := Some (length s),
                           object_getAdditionalFiles := Some (Suc (length s)),
                           object_pageMiddleware := Some (withAuth_pageMiddleware ac cfg),
                           object_enableSessionItem := Some True,
                           object_isAccessAllowed := Some (withAuth_isAccessAllowed env ac cfg) \<rparr>)"
  let ?s1 = "s @ [?A, ?B, ?C]"
  have r: "withAuth_ui_store env ac cfg s a = Some (?s1, Suc (Suc (length s)))"
    by (simp add: withAuth_ui_store_def l p f store_alloc_def)
  have "read_ui ?s1 (Suc (Suc (length s))) =
               Some (u\<lparr> ui_publicPages :=
                           Some ((case ui_publicPages u of None \<Rightarrow> [] | Some ps \<Rightarrow> ps)
                                 @ publicPages ac),
                         ui_getAdditionalFiles :=
                           Some ((case ui_getAdditionalFiles u of None \<Rightarrow> [] | Some fs \<Rightarrow> fs)
                                 @ [getAdditionalFiles env ac]),
                         ui_pageMiddleware := Some (withAuth_pageMiddleware ac cfg),
                         ui_enableSessionItem := Some True,
                         ui_isAccessAllowed := Some (withAuth_isAccessAllowed env ac cfg) \<rparr>)"
    by (simp add: read_ui_def read_strings_def read_functions_def store_lookup_def
          nth_append u)
  with r show ?thesis by simp
qed

lemma withItemData_store_result:
  assumes "read_strategy s a = Some st"
  shows "\<exists>s1 a1. withItemData_store env s a = Some (s1, a1)
           \<and> prefix s s1 \<and> length s \<le> a1
           \<and> read_strategy s1 a1 = Some (withItemData env st)"
proof -
  have "withItemData_store env s a
          = Some (s @ [RestObject (strategy_rest st), StrategyObject (withItemData env st)],
                  Suc (length s))"
    by (simp add: withItemData_store_def assms store_alloc_def)
  moreover have "read_strategy
          (s @ [RestObject (strategy_rest st), StrategyObject (withItemData env st)])
          (Suc (length s)) = Some (withItemData env st)"
    by (simp add: read_strategy_def store_lookup_def nth_append)
  ultimately show ?thesis by simp
qed

lemma withAuth_store_ui_step:
  assumes "read_optional (read_ui s) ao = Some uo"
  shows "\<exists>s1 ui.
           (case ao of
              None \<Rightarrow> Some (s, None)
            | Some a \<Rightarrow> map_option (\<lambda>(s1, ui). (s1, Some ui)) (withAuth_ui_store env ac cfg s a))
             = Some (s1, ui)
         \<and> prefix s s1
         \<and> read_optional (read_ui s1) ui =
             Some (case uo of
                     None \<Rightarrow> None
                   | Some u \<Rightarrow>
                       Some (u\<lparr> ui_publicPages :=
                                   Some ((case ui_publicPages u of None \<Rightarrow> [] | Some ps \<Rightarrow> ps)
                                         @ publicPages ac),
                                 ui_getAdditionalFiles :=
                                   Some ((case ui_getAdditionalFiles u of None \<Rightarrow> [] | Some fs \<Rightarrow> fs)
                                         @ [getAdditionalFiles env ac]),
                                 ui_pageMiddleware := Some (withAuth_pageMiddleware ac cfg),
                                 ui_enableSessionItem := Some True,
                                 ui_isAccessAllowed :=
                                   Some (withAuth_isAccessAllowed env ac cfg) \<rparr>))"
proof (cases ao)
  case None
  with assms show ?thesis by auto
next
  case (Some a)
  with assms obtain u where u: "read_ui s a = Some u" "uo = Some u" by auto
  from withAuth_ui_store_result [OF u(1), of env ac cfg] Some u(2)
  show ?thesis by auto
qed

lemma withAuth_store_session_step:
  assumes "read_optional (read_strategy s) ao = Some sto"
  shows "\<exists>s1 session.
           (case ao of
              None \<Rightarrow> Some (s, None)
            | Some a \<Rightarrow>
                if truthy_string (sessionData ac)
                then map_option (\<lambda>(s2, session). (s2, Some session)) (withItemData_store env s a)
                else Some (s, Some a))
             = Some (s1, session)
         \<and> prefix s s1
         \<and> read_optional (read_strategy s1) session =
             Some (case sto of
                     None \<Rightarrow> None
                   | Some st \<Rightarrow>
                       if truthy_string (sessionData ac) then Some (withItemData env st)
                       else Some st)"
proof (cases ao)
  case None
  with assms show ?thesis by auto
next
  case (Some a)
  with assms obtain st where st: "read_strategy s a = Some st" "sto = Some st" by auto
  show ?thesis
  proof (cases "truthy_string (sessionData ac)")
    case True
    from withItemData_store_result [OF st(1), of env] Some st(2) True
    show ?thesis by auto
  next
    case False
    with Some st show ?thesis by auto
  qed
qed

text \<open>
  C9. For every configuration object of the store that validates, \<open>withAuth\<close> returns, and
  every object that existed before the call is the same after it: the caller's
  configuration object, its \<open>ui\<close> object and arrays, its \<open>lists\<close> and its session strategy read
  as before. The returned configuration is an object that did not exist before, hence
  distinct from the input; it reads as the configuration that the value-level \<open>withAuth\<close>
  computes, and its \<open>lists\<close> is a new object with the entries of the caller's \<open>lists\<close>.
\<close>

theorem withAuth_store_frame:
  assumes "read_config s keystoneConfig = Some cfg"
      and "validateConfig ac cfg = Inr ()"
  shows "\<exists>s' result cfg' c c'.
           withAuth_store env ac s keystoneConfig = Inr (s', result)
         \<and> (\<forall>a. a < length s \<longrightarrow> store_lookup s' a = store_lookup s a)
         \<and> read_config s' keystoneConfig = Some cfg
         \<and> keystoneConfig < length s \<and> length s \<le> result
         \<and> withAuth env ac cfg = Inr cfg'
         \<and> read_config s' result = Some cfg'
         \<and> config_lists cfg' = config_lists cfg
         \<and> store_lookup s keystoneConfig = Some (ConfigObject c)
         \<and> store_lookup s' result = Some (ConfigObject c')
         \<and> length s \<le> object_lists c'
         \<and> read_lists s' (object_lists c') = Some (config_lists cfg)"
proof -
  from assms(1) obtain c ls u st where
    l: "store_lookup s keystoneConfig = Some (ConfigObject c)"
    and ls: "read_lists s (object_lists c) = Some ls"
    and u: "read_optional (read_ui s) (object_ui c) = Some u"
    and st: "read_optional (read_strategy s) (object_session c) = Some st"
    and cfg: "cfg = \<lparr> config_lists = ls, config_ui = u, config_session = st,
                      config_extendGraphqlSchema = object_extendGraphqlSchema c,
                      config_rest = object_rest c \<rparr>"
    by (auto simp add: read_config_def split: option.splits object.splits)
  from withAuth_store_ui_step [OF u, of env ac cfg]
  obtain s1 ui where
    step1: "(case object_ui c of
              None \<Rightarrow> Some (s, None)
            | Some a \<Rightarrow> map_option (\<lambda>(s1, ui). (s1, Some ui)) (withAuth_ui_store env ac cfg s a))
             = Some (s1, ui)"
    and p1: "prefix s s1"
    and r1: "read_optional (read_ui s1) ui =
             Some (case u of
                     None \<Rightarrow> None
                   | Some u \<Rightarrow>
                       Some (u\<lparr> ui_publicPages :=
                                   Some ((case ui_publicPages u of None \<Rightarrow> [] | Some ps \<Rightarrow> ps)
                                         @ publicPages ac),
                                 ui_getAdditionalFiles :=
                                   Some ((case ui_getAdditionalFiles u of None \<Rightarrow> [] | Some fs \<Rightarrow> fs)
                                         @ [getAdditionalFiles env ac]),
                                 ui_pageMiddleware := Some (withAuth_pageMiddleware ac cfg),
                                 ui_enableSessionItem := Some True,
                                 ui_isAccessAllowed :=
                                   Some (withAuth_isAccessAllowed env ac cfg) \<rparr>))"
    by blast
  have st1: "read_optional (read_strategy s1) (object_session c) = Some st"
    by (rule read_optional_mono [OF read_strategy_prefix [OF p1] st])
  from withAuth_store_session_step [OF st1, of ac env]
  obtain s2 session where
    step2: "(case object_session c of
              None \<Rightarrow> Some (s1, None)
            | Some a \<Rightarrow>
                if truthy_string (sessionData ac)
                then map_option (\<lambda>(s2, session). (s2, Some session)) (withItemData_store env s1 a)
                else Some (s1, Some a))
             = Some (s2, session)"
    and p2: "prefix s1 s2"
    and r2: "read_optional (read_strategy s2) session =
             Some (case st of
                     None \<Rightarrow> None
                   | Some st \<Rightarrow>
                       if truthy_string (sessionData ac) then Some (withItemData env st)
                       else Some st)"
    by blast
  have p02: "prefix s s2" using p1 p2 by (rule prefix_order.trans)
  have ls2: "read_lists s2 (object_lists c) = Some ls"
    by (rule read_lists_prefix [OF p02 ls])
  let ?c' = "c\<lparr> object_ui := ui, object_session := session, object_lists := length s2,
               object_extendGraphqlSchema :=
                 Some (case object_extendGraphqlSchema c of
                         Some existing \<Rightarrow> (\<lambda>schema. existing (extendGraphqlSchema env ac schema))
                       | None \<Rightarrow> extendGraphqlSchema env ac) \<rparr>"
  let ?s' = "s2 @ [ListsObject ls, ConfigObject ?c']"
  let ?result = "Suc (length s2)"
  have run: "withAuth_store env ac s keystoneConfig = Inr (?s', ?result)"
    by (simp add: withAuth_store_def assms l step1 step2 ls2 store_alloc_def)
  have p2': "prefix s2 ?s'" by simp
  have p': "prefix s ?s'" using p02 p2' by (rule prefix_order.trans)
  have p1': "prefix s1 ?s'" using p2 p2' by (rule prefix_order.trans)
  have len: "length s \<le> length s2" using p02 by (rule prefix_length_le)
  have frame: "\<forall>a. a < length s \<longrightarrow> store_lookup ?s' a = store_lookup s a"
    using store_lookup_old [OF p'] by blast
  have old: "read_config ?s' keystoneConfig = Some cfg"
    by (rule read_config_prefix [OF p' assms(1)])
  have bound: "keystoneConfig < length s"
    by (rule store_lookup_bound [OF l])
  have new_obj: "store_lookup ?s' ?result = Some (ConfigObject ?c')"
    by (simp add: store_lookup_def nth_append)
  have new_lists: "read_lists ?s' (length s2) = Some ls"
    by (simp add: read_lists_def store_lookup_def nth_append)
  have new_ui: "read_optional (read_ui ?s') ui =
             Some (case u of
                     None \<Rightarrow> None
                   | Some u \<Rightarrow>
                       Some (u\<lparr> ui_publicPages :=
                                   Some ((case ui_publicPages u of None \<Rightarrow> [] | Some ps \<Rightarrow> ps)
                                         @ publicPages ac),
                                 ui_getAdditionalFiles :=
                                   Some ((case ui_getAdditionalFiles u of None \<Rightarrow> [] | Some fs \<Rightarrow> fs)
                                         @ [getAdditionalFiles env ac]),
                                 ui_pageMiddleware := Some (withAuth_pageMiddleware ac cfg),
                                 ui_enableSessionItem := Some True,
                                 ui_isAccessAllowed :=
                                   Some (withAuth_isAccessAllowed env ac cfg) \<rparr>))"
    by (rule read_optional_mono [OF read_ui_prefix [OF p1'] r1])
  have new_session: "read_optional (read_strategy ?s') session =
             Some (case st of
                     None \<Rightarrow> None
                   | Some st \<Rightarrow>
                       if truthy_string (sessionData ac) then Some (withItemData env st)
                       else Some st)"
    by (rule read_optional_mono [OF read_strategy_prefix [OF p2'] r2])
  have val: "withAuth env ac cfg = Inr
         \<lparr> config_lists = ls,
           config_ui = (case u of
                     None \<Rightarrow> None
                   | Some u \<Rightarrow>
                       Some (u\<lparr> ui_publicPages :=
                                   Some ((case ui_publicPages u of None \<Rightarrow> [] | Some ps \<Rightarrow> ps)
                                         @ publicPages ac),
                                 ui_getAdditionalFiles :=
                                   Some ((case ui_getAdditionalFiles u of None \<Rightarrow> [] | Some fs \<Rightarrow> fs)
                                         @ [getAdditionalFiles env ac]),
                                 ui_pageMiddleware := Some (withAuth_pageMiddleware ac cfg),
                                 ui_enableSessionItem := Some True,
                                 ui_isAccessAllowed :=
                                   Some (withAuth_isAccessAllowed env ac cfg) \<rparr>)),
           config_session = (case st of
                     None \<Rightarrow> None
                   | Some st \<Rightarrow>
                       if truthy_string (sessionData ac) then Some (withItemData env st)
                       else Some st),
           config_extendGraphqlSchema =
                 Some (case object_extendGraphqlSchema c of
                         Some existing \<Rightarrow> (\<lambda>schema. existing (extendGraphqlSchema env ac schema))
                       | None \<Rightarrow> extendGraphqlSchema env ac),
           config_rest = object_rest c \<rparr>"
    unfolding withAuth_unfold [OF assms(2)] by (simp add: cfg)
  have new: "read_config ?s' ?result = Some
         \<lparr> config_lists = ls,
           config_ui = (case u of
                     None \<Rightarrow> None
                   | Some u \<Rightarrow>
                       Some (u\<lparr> ui_publicPages :=
                                   Some ((case ui_publicPages u of None \<Rightarrow> [] | Some ps \<Rightarrow> ps)
                                         @ publicPages ac),
                                 ui_getAdditionalFiles :=
                                   Some ((case ui_getAdditionalFiles u of None \<Rightarrow> [] | Some fs \<Rightarrow> fs)
                                         @ [getAdditionalFiles env ac]),
                                 ui_pageMiddleware := Some (withAuth_pageMiddleware ac cfg),
                                 ui_enableSessionItem := Some True,
                                 ui_isAccessAllowed :=
                                   Some (withAuth_isAccessAllowed env ac cfg) \<rparr>)),
           config_session = (case st of
                     None \<Rightarrow> None
                   | Some st \<Rightarrow>
                       if truthy_string (sessionData ac) then Some (withItemData env st)
                       else Some st),
           config_extendGraphqlSchema =
                 Some (case object_extendGraphqlSchema c of
                         Some existing \<Rightarrow> (\<lambda>schema. existing (extendGraphqlSchema env ac schema))
                       | None \<Rightarrow> extendGraphqlSchema env ac),
           config_rest = object_rest c \<rparr>"
    unfolding read_config_def new_obj
    by (simp add: new_lists new_ui new_session)
  have lists_eq: "config_lists cfg = ls" by (simp add: cfg)
  show ?thesis
    apply (rule exI [of _ ?s'])
    apply (rule exI [of _ ?result])
    apply (intro exI conjI)
              apply (rule run)
             apply (rule frame)
            apply (rule old)
           apply (rule bound)
          using len apply simp
         apply (rule val)
        apply (rule new)
       apply (simp add: lists_eq)
      apply (rule l)
     apply (rule new_obj)
    using len apply simp
    apply (simp add: new_lists lists_eq)
    done
qed

theorem withAuth_store_frame_witness:
  "\<exists>s' result cfg' c'.
     withAuth_store example_env example_auth example_store 4 = Inr (s', result)
   \<and> store_lookup s' 0 = store_lookup example_store 0
   \<and> store_lookup s' 1 = store_lookup example_store 1
   \<and> store_lookup s' 2 = store_lookup example_store 2
   \<and> store_lookup s' 3 = store_lookup example_store 3
   \<and> store_lookup s' 4 = store_lookup example_store 4
   \<and> read_config s' 4 = Some example_config
   \<and> 5 \<le> result
   \<and> withAuth example_env example_auth example_config = Inr cfg'
   \<and> read_config s' result = Some cfg'
   \<and> store_lookup s' result = Some (ConfigObject c')
   \<and> 5 \<le> object_lists c'
   \<and> read_lists s' (object_lists c') = Some (config_lists example_config)"
proof -
  have v: "validateConfig example_auth example_config = Inr ()"
    by (simp add: validateConfig_def get_property_def Object_prototype_members_def
          example_auth_def example_config_def)
  have r: "read_config example_store 4 = Some example_config"
    by (simp add: read_config_def read_ui_def read_lists_def read_strings_def
          read_strategy_def store_lookup_def example_store_def example_config_def
          example_ui_def)
  have n: "length example_store = 5"
    by (simp add: example_store_def)
  from withAuth_store_frame [OF r v, of example_env]
  show ?thesis
    unfolding n by (elim exE conjE) (intro exI conjI, simp_all)
qed

end
